theory Spec2Isabelle
  imports Complex_Main
begin

section \<open>The sparse-regression optimizers of \<^verbatim>\<open>sindy/optimizers/optimizers.py\<close>\<close>

text \<open>
  A shallow embedding of \<^verbatim>\<open>BaseOptimizer\<close>, \<^verbatim>\<open>STLSQ\<close>, \<^verbatim>\<open>SR3\<close>, \<^verbatim>\<open>LASSO\<close> and
  \<^verbatim>\<open>ElasticNet\<close>.

  \<^item> A numpy float is a \<^typ>\<open>real\<close>: rounding, infinities and NaN are not modelled.
  \<^item> A one-dimensional array is a list. The design matrix \<^verbatim>\<open>x\<close> is the list of its
    columns, so \<^verbatim>\<open>x.shape[1]\<close> is \<open>length x\<close> and \<^verbatim>\<open>x[:, ind]\<close> keeps the columns
    whose mask entry is true.
  \<^item> An instance is a record of its attributes. A trailing underscore is not part of
    an Isabelle name, so the attribute \<^verbatim>\<open>coef_\<close> is the field \<open>coef_attr\<close>, and
    likewise \<^verbatim>\<open>ind_\<close>, \<^verbatim>\<open>history_\<close>, \<^verbatim>\<open>intercept_\<close> and \<^verbatim>\<open>coef_full_\<close>; an
    attribute that \<^verbatim>\<open>__init__\<close> does not create is an \<open>option\<close>. The
    hyperparameters that a subclass stores are the field \<open>hyper\<close>, one constructor
    per subclass; a method that reads a hyperparameter of another subclass raises
    \<^verbatim>\<open>AttributeError\<close>.
  \<^item> Every \<^verbatim>\<open>raise\<close> is an \<open>Inl\<close>; every \<^verbatim>\<open>warnings.warn\<close> appends to a list of
    warnings that the function returns beside the instance.
  \<^item> The collaborators that the module imports (scikit-learn, scipy, numpy's
    \<^verbatim>\<open>lstsq\<close>, \<^verbatim>\<open>sindy.utils.base.get_prox\<close>) are parameters: the record
    \<open>externals\<close>. Each may raise.
\<close>

subsection \<open>Data\<close>

type_synonym vec = "real list"

type_synonym matrix = "vec list"

type_synonym kwargs = "(string \<times> string) list"

type_synonym cho = "real list list \<times> bool"

datatype error =
    ValueError string
  | IndexError
  | NameError
  | AttributeError
  | NotImplementedError string
  | ExternalError string

datatype warning =
    SparsityTooBig real
  | STLSQNotConverged int
  | STLSQNoIterationsLeft
  | SR3NotConverged int

text \<open>
  The hyperparameters of the four subclasses, in the order of the assignments of
  their \<^verbatim>\<open>__init__\<close>:
  \<^verbatim>\<open>STLSQ threshold alpha max_iter ridge_kw\<close>,
  \<^verbatim>\<open>SR3 threshold nu tol thresholder prox max_iter\<close>,
  \<^verbatim>\<open>LASSO lasso_kw alpha max_iter\<close>,
  \<^verbatim>\<open>ElasticNet alpha l1_ratio max_iter elastic_net_kw\<close>.
\<close>

datatype hyper =
    STLSQ real real int "kwargs option"
  | SR3 real real real string "vec \<Rightarrow> real \<Rightarrow> vec" int
  | LASSO "kwargs option" real int
  | ElasticNet real real int kwargs

record optimizer =
  fit_intercept :: bool
  normalize :: bool
  copy_X :: bool
  iters :: nat
  coef_attr :: vec
  ind_attr :: "bool list"
  history_attr :: "vec list"
  intercept_attr :: "real option"
  coef_full_attr :: "vec option"
  hyper :: hyper

text \<open>
  The external collaborators. \<open>preprocess_data\<close> and \<open>rescale_data\<close> are
  scikit-learn's \<^verbatim>\<open>_preprocess_data\<close> and \<^verbatim>\<open>_rescale_data\<close>; \<open>set_intercept\<close> is
  \<^verbatim>\<open>LinearModel._set_intercept\<close>, which reads \<^verbatim>\<open>fit_intercept\<close> and \<^verbatim>\<open>coef_\<close> and
  assigns \<^verbatim>\<open>coef_\<close> and \<^verbatim>\<open>intercept_\<close>; \<open>Lasso_fit\<close> and \<open>SKElasticNet_fit\<close> build
  the scikit-learn model with \<^verbatim>\<open>fit_intercept=False\<close>, fit it and return its
  \<^verbatim>\<open>coef_\<close> and \<^verbatim>\<open>n_iter_\<close>.
\<close>

record externals =
  check_X_y :: "matrix \<Rightarrow> vec \<Rightarrow> error + (matrix \<times> vec)"
  preprocess_data ::
    "matrix \<Rightarrow> vec \<Rightarrow> bool \<Rightarrow> bool \<Rightarrow> bool \<Rightarrow> vec option \<Rightarrow>
       error + (matrix \<times> vec \<times> vec \<times> real \<times> vec)"
  rescale_data :: "matrix \<Rightarrow> vec \<Rightarrow> vec \<Rightarrow> error + (matrix \<times> vec)"
  lstsq :: "matrix \<Rightarrow> vec \<Rightarrow> error + vec"
  set_intercept :: "bool \<Rightarrow> vec \<Rightarrow> vec \<Rightarrow> real \<Rightarrow> vec \<Rightarrow> error + (vec \<times> real)"
  ridge_regression :: "matrix \<Rightarrow> vec \<Rightarrow> real \<Rightarrow> kwargs \<Rightarrow> error + vec"
  cho_factor :: "real list list \<Rightarrow> error + cho"
  cho_solve :: "cho \<Rightarrow> vec \<Rightarrow> error + vec"
  get_prox :: "string \<Rightarrow> error + (vec \<Rightarrow> real \<Rightarrow> vec)"
  Lasso_fit :: "real \<Rightarrow> int \<Rightarrow> kwargs \<Rightarrow> matrix \<Rightarrow> vec \<Rightarrow> error + (vec \<times> nat)"
  SKElasticNet_fit ::
    "real \<Rightarrow> real \<Rightarrow> int \<Rightarrow> kwargs \<Rightarrow> matrix \<Rightarrow> vec \<Rightarrow> error + (vec \<times> nat)"

subsection \<open>numpy primitives\<close>

text \<open>\<^verbatim>\<open>np.count_nonzero\<close> of a float array.\<close>

definition np_count_nonzero :: "vec \<Rightarrow> nat" where
  "np_count_nonzero c = length (filter (\<lambda>v. v \<noteq> 0) c)"

text \<open>\<^verbatim>\<open>sum(ind)\<close> and \<^verbatim>\<open>np.count_nonzero(ind)\<close> of a boolean array.\<close>

definition np_count_true :: "bool list \<Rightarrow> nat" where
  "np_count_true m = length (filter (\<lambda>b. b) m)"

text \<open>
  \<^verbatim>\<open>c[ind] = coef\<close> for a boolean mask: the values go, in order, to the positions where
  the mask is true. numpy raises \<^verbatim>\<open>IndexError\<close> when the mask is not as long as the
  array, broadcasts a single value, and raises \<^verbatim>\<open>ValueError\<close> for any other number
  of values that differs from the number of true entries.
\<close>

fun scatter :: "vec \<Rightarrow> bool list \<Rightarrow> vec \<Rightarrow> vec" where
  "scatter (c # cs) (True # bs) (v # vs) = v # scatter cs bs vs"
| "scatter (c # cs) (False # bs) vs = c # scatter cs bs vs"
| "scatter cs bs vs = cs"

definition mask_assign :: "vec \<Rightarrow> bool list \<Rightarrow> vec \<Rightarrow> error + vec" where
  "mask_assign c m vs =
     (if length m \<noteq> length c then Inl IndexError
      else if length vs = np_count_true m then Inr (scatter c m vs)
      else if length vs = 1 then Inr (map2 (\<lambda>v b. if b then hd vs else v) c m)
      else Inl (ValueError ''cannot assign input values to the masked output values''))"

text \<open>\<^verbatim>\<open>x[:, ind]\<close>.\<close>

definition select_columns :: "matrix \<Rightarrow> bool list \<Rightarrow> error + matrix" where
  "select_columns x m =
     (if length m \<noteq> length x then Inl IndexError
      else Inr (map fst (filter snd (zip x m))))"

text \<open>
  An elementwise operation on two one-dimensional arrays, with numpy's broadcasting
  of a single element.
\<close>

definition np_broadcast :: "(real \<Rightarrow> real \<Rightarrow> real) \<Rightarrow> vec \<Rightarrow> vec \<Rightarrow> error + vec" where
  "np_broadcast f a b =
     (if length a = length b then Inr (map2 f a b)
      else if length a = 1 then Inr (map (f (hd a)) b)
      else if length b = 1 then Inr (map (\<lambda>v. f v (hd b)) a)
      else Inl (ValueError ''operands could not be broadcast together''))"

definition dot :: "vec \<Rightarrow> vec \<Rightarrow> real" where
  "dot a b = sum_list (map2 (*) a b)"

text \<open>
  \<^verbatim>\<open>np.dot(x.T, x) + np.diag(np.full(x.shape[1], 1.0 / nu))\<close> and \<^verbatim>\<open>np.dot(x.T, y)\<close>.
  The rows of \<^verbatim>\<open>x.T\<close> are the columns of \<^verbatim>\<open>x\<close>; after \<^verbatim>\<open>check_X_y\<close> every column
  is as long as \<^verbatim>\<open>y\<close>.
\<close>

definition sr3_matrix :: "matrix \<Rightarrow> real \<Rightarrow> real list list" where
  "sr3_matrix x nu =
     map (\<lambda>i. map (\<lambda>j. dot (x ! i) (x ! j) + (if i = j then 1 / nu else 0)) [0..<length x])
       [0..<length x]"

definition transpose_dot :: "matrix \<Rightarrow> vec \<Rightarrow> vec" where
  "transpose_dot x y = map (\<lambda>c. dot c y) x"

subsection \<open>\<^verbatim>\<open>BaseOptimizer\<close>\<close>

text \<open>\<^verbatim>\<open>BaseOptimizer.__init__\<close>, with the hyperparameters the subclass assigns after it.\<close>

definition BaseOptimizer_init :: "bool \<Rightarrow> bool \<Rightarrow> bool \<Rightarrow> hyper \<Rightarrow> optimizer" where
  "BaseOptimizer_init nrm fi cx h =
     \<lparr>fit_intercept = fi, normalize = nrm, copy_X = cx, iters = 0, coef_attr = [],
      ind_attr = [], history_attr = [], intercept_attr = None, coef_full_attr = None,
      hyper = h\<rparr>"

text \<open>The attribute lookup \<^verbatim>\<open>self.threshold\<close>.\<close>

fun threshold_of :: "hyper \<Rightarrow> error + real" where
  "threshold_of (STLSQ threshold alpha max_iter ridge_kw) = Inr threshold"
| "threshold_of (SR3 threshold nu tol thresholder prox max_iter) = Inr threshold"
| "threshold_of (LASSO lasso_kw alpha max_iter) = Inl AttributeError"
| "threshold_of (ElasticNet alpha l1_ratio max_iter elastic_net_kw) = Inl AttributeError"

text \<open>The property \<^verbatim>\<open>complexity\<close>.\<close>

definition complexity :: "optimizer \<Rightarrow> error + nat" where
  "complexity self =
     (case intercept_attr self of
        None \<Rightarrow> Inl AttributeError
      | Some b \<Rightarrow>
          (case threshold_of (hyper self) of
             Inl e \<Rightarrow> Inl e
           | Inr threshold \<Rightarrow>
               Inr (np_count_nonzero (coef_attr self)
                    + np_count_true [threshold \<le> \<bar>b\<bar>])))"

text \<open>
  \<^verbatim>\<open>fit\<close>, lines 42 to 60: validation, preprocessing and the rescaling by the sample
  weights. The result is the data handed to \<^verbatim>\<open>_reduce\<close> and the offsets kept for
  \<^verbatim>\<open>_set_intercept\<close>.
\<close>

definition fit_preprocess ::
  "externals \<Rightarrow> optimizer \<Rightarrow> matrix \<Rightarrow> vec \<Rightarrow> vec option \<Rightarrow>
     error + (matrix \<times> vec \<times> vec \<times> real \<times> vec)" where
  "fit_preprocess E self x_in y_in sample_weight =
     (case check_X_y E x_in y_in of
        Inl e \<Rightarrow> Inl e
      | Inr (x1, y1) \<Rightarrow>
          (case preprocess_data E x1 y1 (fit_intercept self) (normalize self) (copy_X self)
                  sample_weight of
             Inl e \<Rightarrow> Inl e
           | Inr (x, y, X_offset, y_offset, X_scale) \<Rightarrow>
               (case sample_weight of
                  None \<Rightarrow> Inr (x, y, X_offset, y_offset, X_scale)
                | Some w \<Rightarrow>
                    (case rescale_data E x y w of
                       Inl e \<Rightarrow> Inl e
                     | Inr (x', y') \<Rightarrow> Inr (x', y', X_offset, y_offset, X_scale)))))"

text \<open>\<^verbatim>\<open>fit\<close>, lines 62 to 65: the state with which \<^verbatim>\<open>_reduce\<close> is entered.\<close>

definition fit_init :: "externals \<Rightarrow> optimizer \<Rightarrow> matrix \<Rightarrow> vec \<Rightarrow> error + optimizer" where
  "fit_init E self x y =
     (case lstsq E x y of
        Inl e \<Rightarrow> Inl e
      | Inr guess \<Rightarrow>
          Inr (self\<lparr>iters := 0, ind_attr := replicate (length x) True, coef_attr := guess,
                    history_attr := history_attr self @ [guess]\<rparr>))"

subsection \<open>\<^verbatim>\<open>STLSQ\<close>\<close>

definition STLSQ_init ::
  "real \<Rightarrow> real \<Rightarrow> int \<Rightarrow> kwargs option \<Rightarrow> bool \<Rightarrow> bool \<Rightarrow> bool \<Rightarrow> error + optimizer" where
  "STLSQ_init threshold alpha max_iter ridge_kw nrm fi cx =
     (if threshold < 0 then Inl (ValueError ''threshold cannot be negative'')
      else if alpha < 0 then Inl (ValueError ''alpha cannot be negative'')
      else if max_iter \<le> 0 then Inl (ValueError ''max_iter must be positive'')
      else Inr (BaseOptimizer_init nrm fi cx (STLSQ threshold alpha max_iter ridge_kw)))"

definition sparse_coefficients ::
  "optimizer \<Rightarrow> nat \<Rightarrow> bool list \<Rightarrow> vec \<Rightarrow> real \<Rightarrow> error + (optimizer \<times> vec \<times> bool list)" where
  "sparse_coefficients self dm m cf threshold =
     (case mask_assign (replicate dm 0) m cf of
        Inl e \<Rightarrow> Inl e
      | Inr c \<Rightarrow>
          (let big_ind = map (\<lambda>v. threshold \<le> \<bar>v\<bar>) c;
               c' = map2 (\<lambda>v b. if b then v else 0) c big_ind
           in Inr (self\<lparr>history_attr := history_attr self @ [c']\<rparr>, c', big_ind)))"

definition STLSQ_regress ::
  "externals \<Rightarrow> optimizer \<Rightarrow> matrix \<Rightarrow> vec \<Rightarrow> error + (optimizer \<times> vec)" where
  "STLSQ_regress E self x y =
     (case hyper self of
        STLSQ threshold alpha max_iter ridge_kw \<Rightarrow>
          (case ridge_regression E x y alpha (case ridge_kw of None \<Rightarrow> [] | Some kw \<Rightarrow> kw) of
             Inl e \<Rightarrow> Inl e
           | Inr cf \<Rightarrow> Inr (self\<lparr>iters := iters self + 1\<rparr>, cf))
      | _ \<Rightarrow> Inl AttributeError)"

text \<open>The comparison of \<^verbatim>\<open>_no_change\<close>: \<^verbatim>\<open>all(bool(i) == bool(j) for i, j in zip(a, b))\<close>.\<close>

definition same_pattern :: "vec \<Rightarrow> vec \<Rightarrow> bool" where
  "same_pattern a b = list_all (\<lambda>(i, j). (i \<noteq> 0) = (j \<noteq> 0)) (zip a b)"

definition no_change :: "optimizer \<Rightarrow> error + bool" where
  "no_change self =
     (case rev (history_attr self) of
        [] \<Rightarrow> Inl IndexError
      | this_coef # older \<Rightarrow>
          Inr (same_pattern this_coef
                 (case older of
                    [] \<Rightarrow> replicate (length this_coef) 0
                  | last_coef # _ \<Rightarrow> last_coef)))"

text \<open>
  The local state of \<^verbatim>\<open>STLSQ._reduce\<close>: the instance, the locals \<^verbatim>\<open>ind\<close> and
  \<^verbatim>\<open>coef\<close> (unbound until a round assigns it) and the warnings emitted so far.
\<close>

record stlsq_frame =
  self :: optimizer
  ind :: "bool list"
  coef :: "vec option"
  warned :: "warning list"

text \<open>
  How one pass through the body of the \<^verbatim>\<open>for\<close> loop ends: it falls through to the
  next round, leaves by the \<^verbatim>\<open>break\<close> of the empty support (line 141), or leaves by
  the \<^verbatim>\<open>break\<close> of the stopping test (line 153).
\<close>

datatype step = Iterating | Degenerate | Converged

definition STLSQ_round ::
  "externals \<Rightarrow> nat \<Rightarrow> nat \<Rightarrow> matrix \<Rightarrow> vec \<Rightarrow> stlsq_frame \<Rightarrow> error + (step \<times> stlsq_frame)" where
  "STLSQ_round E n_features n_features_selected x y fr =
     (case hyper (self fr) of
        STLSQ threshold alpha max_iter ridge_kw \<Rightarrow>
          if np_count_true (ind fr) = 0 then
            Inr (Degenerate,
                 fr\<lparr>warned := warned fr @ [SparsityTooBig threshold],
                    coef := Some (replicate (length (ind fr)) 0)\<rparr>)
          else
            (case select_columns x (ind fr) of
               Inl e \<Rightarrow> Inl e
             | Inr xs \<Rightarrow>
                 (case STLSQ_regress E (self fr) xs y of
                    Inl e \<Rightarrow> Inl e
                  | Inr (self1, cf) \<Rightarrow>
                      (case sparse_coefficients self1 n_features (ind fr) cf threshold of
                         Inl e \<Rightarrow> Inl e
                       | Inr (self2, c, big_ind) \<Rightarrow>
                           (let fr' = fr\<lparr>self := self2, coef := Some c, ind := big_ind\<rparr>
                            in if np_count_true big_ind = n_features_selected
                               then Inr (Converged, fr')
                               else (case no_change self2 of
                                       Inl e \<Rightarrow> Inl e
                                     | Inr b \<Rightarrow>
                                         Inr (if b then Converged else Iterating, fr'))))))
      | _ \<Rightarrow> Inl AttributeError)"

text \<open>The \<^verbatim>\<open>else\<close> clause of the loop: the rounds are used up.\<close>

definition STLSQ_else :: "stlsq_frame \<Rightarrow> error + stlsq_frame" where
  "STLSQ_else fr =
     (case hyper (self fr) of
        STLSQ threshold alpha max_iter ridge_kw \<Rightarrow>
          (let fr1 = fr\<lparr>warned := warned fr @ [STLSQNotConverged max_iter]\<rparr>
           in case coef fr1 of
                Some c \<Rightarrow> Inr fr1
              | None \<Rightarrow>
                  Inr (fr1\<lparr>coef := Some (coef_attr (self fr1)),
                           warned := warned fr1 @ [STLSQNoIterationsLeft]\<rparr>))
      | _ \<Rightarrow> Inl AttributeError)"

text \<open>\<^verbatim>\<open>for _ in range(self.max_iter): ... else: ...\<close> with \<open>k\<close> rounds left.\<close>

fun STLSQ_for ::
  "externals \<Rightarrow> nat \<Rightarrow> nat \<Rightarrow> matrix \<Rightarrow> vec \<Rightarrow> nat \<Rightarrow> stlsq_frame \<Rightarrow> error + stlsq_frame" where
  "STLSQ_for E nf nsel x y 0 fr = STLSQ_else fr"
| "STLSQ_for E nf nsel x y (Suc k) fr =
     (case STLSQ_round E nf nsel x y fr of
        Inl e \<Rightarrow> Inl e
      | Inr (Iterating, fr') \<Rightarrow> STLSQ_for E nf nsel x y k fr'
      | Inr (Degenerate, fr') \<Rightarrow> Inr fr'
      | Inr (Converged, fr') \<Rightarrow> Inr fr')"

definition STLSQ_frame0 :: "optimizer \<Rightarrow> stlsq_frame" where
  "STLSQ_frame0 slf = \<lparr>self = slf, ind = ind_attr slf, coef = None, warned = []\<rparr>"

definition STLSQ_reduce ::
  "externals \<Rightarrow> optimizer \<Rightarrow> matrix \<Rightarrow> vec \<Rightarrow> error + (optimizer \<times> warning list)" where
  "STLSQ_reduce E slf x y =
     (case hyper slf of
        STLSQ threshold alpha max_iter ridge_kw \<Rightarrow>
          (case STLSQ_for E (length x) (np_count_true (ind_attr slf)) x y (nat max_iter)
                  (STLSQ_frame0 slf) of
             Inl e \<Rightarrow> Inl e
           | Inr fr \<Rightarrow>
               (case coef fr of
                  None \<Rightarrow> Inl NameError
                | Some c \<Rightarrow> Inr ((self fr)\<lparr>coef_attr := c, ind_attr := ind fr\<rparr>, warned fr)))
      | _ \<Rightarrow> Inl AttributeError)"

text \<open>
  The rounds that the loop runs, in order, each with the frame it starts from, the way
  it ends and the frame it leaves: the loop above, recording instead of returning.
\<close>

fun STLSQ_rounds ::
  "externals \<Rightarrow> nat \<Rightarrow> nat \<Rightarrow> matrix \<Rightarrow> vec \<Rightarrow> nat \<Rightarrow> stlsq_frame \<Rightarrow>
     (stlsq_frame \<times> step \<times> stlsq_frame) list" where
  "STLSQ_rounds E nf nsel x y 0 fr = []"
| "STLSQ_rounds E nf nsel x y (Suc k) fr =
     (case STLSQ_round E nf nsel x y fr of
        Inl e \<Rightarrow> []
      | Inr (Iterating, fr') \<Rightarrow> (fr, Iterating, fr') # STLSQ_rounds E nf nsel x y k fr'
      | Inr (Degenerate, fr') \<Rightarrow> [(fr, Degenerate, fr')]
      | Inr (Converged, fr') \<Rightarrow> [(fr, Converged, fr')])"

text \<open>The values of the local \<^verbatim>\<open>ind\<close>: on entry, then after each round.\<close>

definition STLSQ_masks ::
  "externals \<Rightarrow> nat \<Rightarrow> nat \<Rightarrow> matrix \<Rightarrow> vec \<Rightarrow> nat \<Rightarrow> stlsq_frame \<Rightarrow> bool list list" where
  "STLSQ_masks E nf nsel x y k fr =
     ind fr # map (\<lambda>(a, s, b). ind b) (STLSQ_rounds E nf nsel x y k fr)"

subsection \<open>\<^verbatim>\<open>SR3\<close>\<close>

definition SR3_init ::
  "externals \<Rightarrow> real \<Rightarrow> real \<Rightarrow> real \<Rightarrow> string \<Rightarrow> int \<Rightarrow> bool \<Rightarrow> bool \<Rightarrow> bool \<Rightarrow>
     error + optimizer" where
  "SR3_init E threshold nu tol thresholder max_iter nrm fi cx =
     (if threshold < 0 then Inl (ValueError ''threshold cannot be negative'')
      else if nu \<le> 0 then Inl (ValueError ''nu must be positive'')
      else if tol \<le> 0 then Inl (ValueError ''tol must be positive'')
      else if max_iter \<le> 0 then Inl (ValueError ''max_iter must be positive'')
      else (case get_prox E thresholder of
              Inl e \<Rightarrow> Inl e
            | Inr prox \<Rightarrow>
                Inr (BaseOptimizer_init nrm fi cx
                       (SR3 threshold nu tol thresholder prox max_iter))))"

definition SR3_update_full_coef ::
  "externals \<Rightarrow> optimizer \<Rightarrow> cho \<Rightarrow> vec \<Rightarrow> vec \<Rightarrow> error + (optimizer \<times> vec)" where
  "SR3_update_full_coef E slf ch x_transpose_y c_sparse =
     (case hyper slf of
        SR3 threshold nu tol thresholder prox max_iter \<Rightarrow>
          (case np_broadcast (+) x_transpose_y (map (\<lambda>v. v / nu) c_sparse) of
             Inl e \<Rightarrow> Inl e
           | Inr b \<Rightarrow>
               (case cho_solve E ch b of
                  Inl e \<Rightarrow> Inl e
                | Inr c_full \<Rightarrow> Inr (slf\<lparr>iters := iters slf + 1\<rparr>, c_full)))
      | _ \<Rightarrow> Inl AttributeError)"

definition SR3_update_sparse_coef :: "optimizer \<Rightarrow> vec \<Rightarrow> error + (optimizer \<times> vec)" where
  "SR3_update_sparse_coef slf c_full =
     (case hyper slf of
        SR3 threshold nu tol thresholder prox max_iter \<Rightarrow>
          (let c_sparse = prox c_full threshold
           in Inr (slf\<lparr>history_attr := history_attr slf @ [c_sparse]\<rparr>, c_sparse))
      | _ \<Rightarrow> Inl AttributeError)"

definition SR3_convergence_criterion :: "optimizer \<Rightarrow> error + real" where
  "SR3_convergence_criterion slf =
     (case rev (history_attr slf) of
        [] \<Rightarrow> Inl IndexError
      | this_coef # older \<Rightarrow>
          (case np_broadcast (-) this_coef
                  (case older of
                     [] \<Rightarrow> replicate (length this_coef) 0
                   | last_coef # _ \<Rightarrow> last_coef) of
             Inl e \<Rightarrow> Inl e
           | Inr d \<Rightarrow> Inr (sum_list (map (\<lambda>v. v ^ 2) d))))"

text \<open>
  The local state of \<^verbatim>\<open>SR3._reduce\<close>: the instance and the locals \<^verbatim>\<open>coef_sparse\<close>
  and \<^verbatim>\<open>coef_full\<close> (unbound until a round assigns it).
\<close>

record sr3_frame =
  sr3_self :: optimizer
  coef_sparse :: vec
  coef_full :: "vec option"

text \<open>One pass through the loop body; the flag says whether it leaves by \<^verbatim>\<open>break\<close>.\<close>

definition SR3_round ::
  "externals \<Rightarrow> cho \<Rightarrow> vec \<Rightarrow> sr3_frame \<Rightarrow> error + (bool \<times> sr3_frame)" where
  "SR3_round E ch x_transpose_y fr =
     (case SR3_update_full_coef E (sr3_self fr) ch x_transpose_y (coef_sparse fr) of
        Inl e \<Rightarrow> Inl e
      | Inr (self1, c_full) \<Rightarrow>
          (case SR3_update_sparse_coef self1 c_full of
             Inl e \<Rightarrow> Inl e
           | Inr (self2, c_sparse) \<Rightarrow>
               (case SR3_convergence_criterion self2 of
                  Inl e \<Rightarrow> Inl e
                | Inr crit \<Rightarrow>
                    (case hyper self2 of
                       SR3 threshold nu tol thresholder prox max_iter \<Rightarrow>
                         Inr (crit < tol,
                              \<lparr>sr3_self = self2, coef_sparse = c_sparse,
                               coef_full = Some c_full\<rparr>)
                     | _ \<Rightarrow> Inl AttributeError))))"

fun SR3_for ::
  "externals \<Rightarrow> cho \<Rightarrow> vec \<Rightarrow> nat \<Rightarrow> sr3_frame \<Rightarrow> error + (sr3_frame \<times> warning list)" where
  "SR3_for E ch xty 0 fr =
     (case hyper (sr3_self fr) of
        SR3 threshold nu tol thresholder prox max_iter \<Rightarrow> Inr (fr, [SR3NotConverged max_iter])
      | _ \<Rightarrow> Inl AttributeError)"
| "SR3_for E ch xty (Suc k) fr =
     (case SR3_round E ch xty fr of
        Inl e \<Rightarrow> Inl e
      | Inr (True, fr') \<Rightarrow> Inr (fr', [])
      | Inr (False, fr') \<Rightarrow> SR3_for E ch xty k fr')"

definition SR3_reduce ::
  "externals \<Rightarrow> optimizer \<Rightarrow> matrix \<Rightarrow> vec \<Rightarrow> error + (optimizer \<times> warning list)" where
  "SR3_reduce E slf x y =
     (case hyper slf of
        SR3 threshold nu tol thresholder prox max_iter \<Rightarrow>
          (case cho_factor E (sr3_matrix x nu) of
             Inl e \<Rightarrow> Inl e
           | Inr ch \<Rightarrow>
               (case SR3_for E ch (transpose_dot x y) (nat max_iter)
                       \<lparr>sr3_self = slf, coef_sparse = coef_attr slf, coef_full = None\<rparr> of
                  Inl e \<Rightarrow> Inl e
                | Inr (fr, ws) \<Rightarrow>
                    (case coef_full fr of
                       None \<Rightarrow> Inl NameError
                     | Some c_full \<Rightarrow>
                         Inr ((sr3_self fr)\<lparr>coef_attr := coef_sparse fr,
                                            coef_full_attr := Some c_full\<rparr>, ws))))
      | _ \<Rightarrow> Inl AttributeError)"

subsection \<open>\<^verbatim>\<open>LASSO\<close> and \<^verbatim>\<open>ElasticNet\<close>\<close>

definition LASSO_init ::
  "real \<Rightarrow> kwargs option \<Rightarrow> int \<Rightarrow> bool \<Rightarrow> bool \<Rightarrow> bool \<Rightarrow> error + optimizer" where
  "LASSO_init alpha lasso_kw max_iter nrm fi cx =
     (if alpha < 0 then Inl (ValueError ''alpha cannot be negative'')
      else if max_iter \<le> 0 then Inl (ValueError ''max_iter must be positive'')
      else Inr (BaseOptimizer_init nrm fi cx (LASSO lasso_kw alpha max_iter)))"

definition LASSO_reduce ::
  "externals \<Rightarrow> optimizer \<Rightarrow> matrix \<Rightarrow> vec \<Rightarrow> error + (optimizer \<times> warning list)" where
  "LASSO_reduce E slf x y =
     (case hyper slf of
        LASSO lasso_kw alpha max_iter \<Rightarrow>
          (case Lasso_fit E alpha max_iter (case lasso_kw of None \<Rightarrow> [] | Some kw \<Rightarrow> kw) x y of
             Inl e \<Rightarrow> Inl e
           | Inr (c, n_iter) \<Rightarrow> Inr (slf\<lparr>coef_attr := c, iters := n_iter\<rparr>, []))
      | _ \<Rightarrow> Inl AttributeError)"

definition ElasticNet_init ::
  "real \<Rightarrow> real \<Rightarrow> int \<Rightarrow> kwargs \<Rightarrow> bool \<Rightarrow> bool \<Rightarrow> bool \<Rightarrow> error + optimizer" where
  "ElasticNet_init alpha l1_ratio max_iter elastic_net_kw nrm fi cx =
     (if alpha < 0 then Inl (ValueError ''alpha must be nonnegative'')
      else if l1_ratio < 0 then Inl (ValueError ''l1_ratio must be nonnegative'')
      else if max_iter \<le> 0 then Inl (ValueError ''max_iter must be positive'')
      else Inr (BaseOptimizer_init nrm fi cx
                  (ElasticNet alpha l1_ratio max_iter elastic_net_kw)))"

definition ElasticNet_reduce ::
  "externals \<Rightarrow> optimizer \<Rightarrow> matrix \<Rightarrow> vec \<Rightarrow> error + (optimizer \<times> warning list)" where
  "ElasticNet_reduce E slf x y =
     (case hyper slf of
        ElasticNet alpha l1_ratio max_iter elastic_net_kw \<Rightarrow>
          (case SKElasticNet_fit E alpha l1_ratio max_iter elastic_net_kw x y of
             Inl e \<Rightarrow> Inl e
           | Inr (c, n_iter) \<Rightarrow> Inr (slf\<lparr>coef_attr := c, iters := n_iter\<rparr>, []))
      | _ \<Rightarrow> Inl AttributeError)"

subsection \<open>\<^verbatim>\<open>fit\<close>\<close>

text \<open>The call \<^verbatim>\<open>self._reduce(x, y)\<close>: the method of the instance's class.\<close>

definition reduce ::
  "externals \<Rightarrow> optimizer \<Rightarrow> matrix \<Rightarrow> vec \<Rightarrow> error + (optimizer \<times> warning list)" where
  "reduce E slf x y =
     (case hyper slf of
        STLSQ threshold alpha max_iter ridge_kw \<Rightarrow> STLSQ_reduce E slf x y
      | SR3 threshold nu tol thresholder prox max_iter \<Rightarrow> SR3_reduce E slf x y
      | LASSO lasso_kw alpha max_iter \<Rightarrow> LASSO_reduce E slf x y
      | ElasticNet alpha l1_ratio max_iter elastic_net_kw \<Rightarrow> ElasticNet_reduce E slf x y)"

text \<open>
  \<^verbatim>\<open>fit\<close>. No \<^verbatim>\<open>_reduce\<close> of the module takes a keyword argument, so \<^verbatim>\<open>reduce_kws\<close>
  is empty.
\<close>

definition fit ::
  "externals \<Rightarrow> optimizer \<Rightarrow> matrix \<Rightarrow> vec \<Rightarrow> vec option \<Rightarrow>
     error + (optimizer \<times> warning list)" where
  "fit E slf x_in y_in sample_weight =
     (case fit_preprocess E slf x_in y_in sample_weight of
        Inl e \<Rightarrow> Inl e
      | Inr (x, y, X_offset, y_offset, X_scale) \<Rightarrow>
          (case fit_init E slf x y of
             Inl e \<Rightarrow> Inl e
           | Inr self1 \<Rightarrow>
               (case reduce E self1 x y of
                  Inl e \<Rightarrow> Inl e
                | Inr (self2, ws) \<Rightarrow>
                    (case set_intercept E (fit_intercept self2) (coef_attr self2)
                            X_offset y_offset X_scale of
                       Inl e \<Rightarrow> Inl e
                     | Inr (c, b) \<Rightarrow>
                         Inr (self2\<lparr>coef_attr := c, intercept_attr := Some b\<rparr>, ws)))))"

subsection \<open>Collaborators for the worked examples\<close>

text \<open>
  Modelled from the spec: the proximal-operator factory \<^verbatim>\<open>get_prox\<close> of
  \<^verbatim>\<open>sindy.utils.base\<close>, which is not among the sources. The spec gives it as a map
  from a thresholder identifier to a function from a vector and a threshold to the
  thresholded vector, a hard threshold for the L0 penalty and a soft threshold for
  the L1 penalty, that fails with an unrecognized-operator error on any other
  identifier.
\<close>

definition prox_l0 :: "vec \<Rightarrow> real \<Rightarrow> vec" where
  "prox_l0 v t = map (\<lambda>a. if t < \<bar>a\<bar> then a else 0) v"

definition prox_l1 :: "vec \<Rightarrow> real \<Rightarrow> vec" where
  "prox_l1 v t = map (\<lambda>a. sgn a * max (\<bar>a\<bar> - t) 0) v"

definition spec_get_prox :: "string \<Rightarrow> error + (vec \<Rightarrow> real \<Rightarrow> vec)" where
  "spec_get_prox k =
     (if k = ''l0'' then Inr prox_l0
      else if k = ''l1'' then Inr prox_l1
      else Inl (NotImplementedError k))"

text \<open>
  The linear-algebra collaborators on a design matrix whose columns are orthonormal,
  fitted without intercept, normalisation or sample weights. There the preprocessing
  returns the data as they are, \<^verbatim>\<open>_set_intercept\<close> leaves the coefficients and sets
  the intercept to zero, and the solvers have closed forms: with \<open>x\<^sup>T x\<close> the identity,
  least squares gives \<open>x\<^sup>T y\<close>, ridge regression with penalty \<open>alpha\<close> gives
  \<open>x\<^sup>T y / (1 + alpha)\<close>, the matrix of \<open>SR3\<close> is diagonal, and the coordinate-descent
  solvers give the soft-thresholded \<open>x\<^sup>T y\<close>.
\<close>

definition ortho_externals :: externals where
  "ortho_externals =
     \<lparr>check_X_y = (\<lambda>x y. Inr (x, y)),
      preprocess_data =
        (\<lambda>x y fi nrm cp sw. Inr (x, y, replicate (length x) 0, 0, replicate (length x) 1)),
      rescale_data = (\<lambda>x y w. Inl (ExternalError ''sample weights are not part of the example'')),
      lstsq = (\<lambda>x y. Inr (transpose_dot x y)),
      set_intercept = (\<lambda>fi c X_offset y_offset X_scale. Inr (c, 0)),
      ridge_regression = (\<lambda>x y alpha kw. Inr (map (\<lambda>v. v / (1 + alpha)) (transpose_dot x y))),
      cho_factor = (\<lambda>m. Inr (m, False)),
      cho_solve = (\<lambda>ch b. Inr (map (\<lambda>i. b ! i / (fst ch ! i ! i)) [0..<length b])),
      get_prox = spec_get_prox,
      Lasso_fit =
        (\<lambda>alpha max_iter kw x y. Inr (prox_l1 (transpose_dot x y) (alpha * real (length y)), 1)),
      SKElasticNet_fit =
        (\<lambda>alpha l1_ratio max_iter kw x y.
           Inr (map (\<lambda>v. v / (1 + alpha * (1 - l1_ratio) * real (length y)))
                  (prox_l1 (transpose_dot x y) (alpha * l1_ratio * real (length y))), 1))\<rparr>"

text \<open>The 3 by 3 identity as a design matrix, and the target \<open>[1, 2, 3]\<close>.\<close>

definition identity3 :: matrix where
  "identity3 = [[1, 0, 0], [0, 1, 0], [0, 0, 1]]"

definition y123 :: vec where
  "y123 = [1, 2, 3]"

text \<open>
  A fitted \<open>SR3\<close> model with the soft threshold, whose coefficient vector is
  \<open>[0, 2.0, 0, -0.05]\<close> and whose intercept is zero.
\<close>

definition small_coef_model :: optimizer where
  "small_coef_model =
     (BaseOptimizer_init False False True (SR3 (1/10) 1 (1/100000) ''l1'' prox_l1 30))
       \<lparr>coef_attr := [0, 2, 0, - (5/100)], intercept_attr := Some 0\<rparr>"

text \<open>
  Modelled from the spec: the contract of the external least-squares and ridge solvers,
  which are not among the sources. The spec gives ridge regression as least squares with
  an added L2 penalty on the coefficients, so a solution minimises
  \<open>\<bar>x w - y\<bar>\<^sup>2 + alpha \<bar>w\<bar>\<^sup>2\<close>; for \<open>alpha \<ge> 0\<close> these are the solutions of the normal
  equations \<open>(x\<^sup>T x + alpha I) w = x\<^sup>T y\<close>, and \<open>alpha = 0\<close> is ordinary least squares.
\<close>

definition normal_equations :: "matrix \<Rightarrow> vec \<Rightarrow> real \<Rightarrow> vec \<Rightarrow> bool" where
  "normal_equations x y alpha w \<longleftrightarrow>
     length w = length x \<and>
     list_all (\<lambda>i. sum_list (map (\<lambda>j. dot (x ! i) (x ! j) * w ! j) [0..<length x]) + alpha * w ! i
                    = dot (x ! i) y)
       [0..<length x]"

text \<open>An \<open>STLSQ\<close> instance built with the defaults but for the threshold and \<^verbatim>\<open>max_iter\<close>.\<close>

definition stlsq_model :: "real \<Rightarrow> int \<Rightarrow> optimizer" where
  "stlsq_model t mi = BaseOptimizer_init False False True (STLSQ t 0 mi None)"

text \<open>
  The state in which \<^verbatim>\<open>fit\<close> hands that instance, the identity and the target
  \<open>[1, 2, 3]\<close> to \<^verbatim>\<open>_reduce\<close>, and the frame of \<^verbatim>\<open>_reduce\<close> after \<open>n\<close> rounds that
  appended the snapshots \<open>cs\<close> and left the mask \<open>m\<close>.
\<close>

definition entry_state :: "real \<Rightarrow> int \<Rightarrow> optimizer" where
  "entry_state t mi =
     (stlsq_model t mi)\<lparr>iters := 0, ind_attr := [True, True, True], coef_attr := [1, 2, 3],
                        history_attr := [[1, 2, 3]]\<rparr>"

definition after_rounds :: "real \<Rightarrow> int \<Rightarrow> nat \<Rightarrow> vec list \<Rightarrow> bool list \<Rightarrow> stlsq_frame" where
  "after_rounds t mi n cs m =
     \<lparr>self = (entry_state t mi)\<lparr>iters := n, history_attr := [1, 2, 3] # cs\<rparr>,
      ind = m, coef = Some (last cs), warned = []\<rparr>"

text \<open>The instance after one fit with threshold \<open>1.5\<close>.\<close>

definition fitted_once :: optimizer where
  "fitted_once =
     \<lparr>fit_intercept = False, normalize = False, copy_X = True, iters = 2,
      coef_attr = [0, 2, 3], ind_attr = [False, True, True],
      history_attr = [[1, 2, 3], [0, 2, 3], [0, 2, 3]], intercept_attr = Some 0,
      coef_full_attr = None, hyper = STLSQ (3/2) 0 20 None\<rparr>"

text \<open>An \<open>SR3\<close> instance with the hard threshold, its state on entry to \<^verbatim>\<open>_reduce\<close>, and a
  \<open>LASSO\<close> instance.\<close>

definition sr3_model :: optimizer where
  "sr3_model = BaseOptimizer_init False False True (SR3 (3/2) 1 (1/100000) ''l0'' prox_l0 30)"

definition sr3_entry :: optimizer where
  "sr3_entry = sr3_model\<lparr>iters := 0, ind_attr := [True, True, True], coef_attr := [1, 2, 3],
                          history_attr := [[1, 2, 3]]\<rparr>"

definition lasso_model :: optimizer where
  "lasso_model = BaseOptimizer_init False False True (LASSO None (1/3) 1000)"

subsection \<open>Invariants of the \<open>STLSQ\<close> loop\<close>

text \<open>
  What holds of the frame at the start of every round of a fit with \<open>nf\<close> features:
  History is not empty, and either the mask is still full, or the threshold is
  positive, the mask is no longer full and it is the nonzero pattern of the newest
  History entry.
\<close>

definition stop_inv :: "real \<Rightarrow> real \<Rightarrow> int \<Rightarrow> kwargs option \<Rightarrow> nat \<Rightarrow> stlsq_frame \<Rightarrow> bool" where
  "stop_inv t a mi kw nf fr \<longleftrightarrow>
     hyper (self fr) = STLSQ t a mi kw \<and> length (ind fr) = nf \<and> history_attr (self fr) \<noteq> [] \<and>
     (ind fr = replicate nf True \<or>
      (0 < t \<and> np_count_true (ind fr) < nf \<and>
       map (\<lambda>z. z \<noteq> 0) (last (history_attr (self fr))) = ind fr))"

text \<open>A coefficient vector that is zero wherever a mask is false.\<close>

definition zero_off_mask :: "vec \<Rightarrow> bool list \<Rightarrow> bool" where
  "zero_off_mask c m \<longleftrightarrow> (\<forall>i < length m. \<not> m ! i \<longrightarrow> i < length c \<and> c ! i = 0)"

section \<open>Properties\<close>

subsection \<open>Arrays, masks and rounds\<close>

lemma length_scatter: "length (scatter c m vs) = length c"
  by (induction c m vs rule: scatter.induct) auto

lemma scatter_off_mask:
  "i < length c \<Longrightarrow> i < length m \<Longrightarrow> \<not> m ! i \<Longrightarrow> scatter c m vs ! i = c ! i"
proof (induction c m vs arbitrary: i rule: scatter.induct)
  case (1 c cs bs v vs)
  then show ?case by (cases i) auto
next
  case (2 c cs bs vs)
  then show ?case by (cases i) auto
qed auto

lemma scatter_all_true:
  "length vs = length c \<Longrightarrow> scatter c (replicate (length c) True) vs = vs"
  by (induction c arbitrary: vs) (auto simp: length_Suc_conv)

lemma mask_assign_Inr:
  assumes "mask_assign c m vs = Inr c'"
  shows "length c' = length c" and "length m = length c"
    and "\<And>i. i < length c \<Longrightarrow> \<not> m ! i \<Longrightarrow> c' ! i = c ! i"
  using assms
  by (auto simp: mask_assign_def length_scatter scatter_off_mask split: if_splits)

lemma count_true_replicate [simp]: "np_count_true (replicate n True) = n"
  by (simp add: np_count_true_def)

lemma count_true_le_length: "np_count_true m \<le> length m"
  by (simp add: np_count_true_def)

lemma count_true_full: "np_count_true m = length m \<Longrightarrow> m = replicate (length m) True"
proof (induction m)
  case Nil then show ?case by simp
next
  case (Cons b m)
  have "np_count_true m \<le> length m" by (rule count_true_le_length)
  with Cons show ?case by (cases b) (auto simp: np_count_true_def)
qed

lemma mask_assign_all_true:
  "length vs = n \<Longrightarrow> mask_assign (replicate n 0) (replicate n True) vs = Inr vs"
  using scatter_all_true [of vs "replicate n 0"]
  by (simp add: mask_assign_def)

lemma select_all_columns: "select_columns x (replicate (length x) True) = Inr x"
proof -
  have "map fst (filter snd (zip x (replicate (length x) True))) = x"
    by (induction x) auto
  then show ?thesis by (simp add: select_columns_def)
qed

text \<open>What thresholding returns.\<close>

lemma sparse_coefficients_Inr:
  assumes "sparse_coefficients s d m cf t = Inr (s', c, big)"
  shows "s' = s\<lparr>history_attr := history_attr s @ [c]\<rparr>"
    and "length c = d" and "length big = d" and "length m = d"
    and "\<And>i. i < d \<Longrightarrow> \<not> big ! i \<Longrightarrow> c ! i = 0"
    and "\<And>i. i < d \<Longrightarrow> big ! i \<Longrightarrow> t \<le> \<bar>c ! i\<bar>"
    and "\<And>i. i < d \<Longrightarrow> \<not> m ! i \<Longrightarrow> c ! i = 0"
    and "\<And>i. i < d \<Longrightarrow> t \<le> \<bar>c ! i\<bar> \<Longrightarrow> big ! i"
proof -
  from assms obtain c0 where c0: "mask_assign (replicate d 0) m cf = Inr c0"
    and big: "big = map (\<lambda>v. t \<le> \<bar>v\<bar>) c0"
    and c: "c = map2 (\<lambda>v b. if b then v else 0) c0 big"
    and s': "s' = s\<lparr>history_attr := history_attr s @ [c]\<rparr>"
    by (auto simp: sparse_coefficients_def Let_def split: sum.splits)
  note ma = mask_assign_Inr [OF c0]
  show "s' = s\<lparr>history_attr := history_attr s @ [c]\<rparr>" by (rule s')
  show "length c = d" using ma(1) by (simp add: c big)
  show "length big = d" using ma(1) by (simp add: big)
  show "length m = d" using ma(2) by simp
  show "c ! i = 0" if "i < d" "\<not> big ! i" for i
    using that ma(1) by (simp add: c big)
  show "t \<le> \<bar>c ! i\<bar>" if "i < d" "big ! i" for i
    using that ma(1) by (simp add: c big)
  show "c ! i = 0" if "i < d" "\<not> m ! i" for i
    using that ma(1) ma(3) [of i] by (simp add: c big)
  show "big ! i" if "i < d" "t \<le> \<bar>c ! i\<bar>" for i
    using that ma(1) by (auto simp add: c big split: if_splits)
qed

lemma STLSQ_round_degenerate:
  assumes "hyper (self fr) = STLSQ t a mi kw" and "np_count_true (ind fr) = 0"
  shows "STLSQ_round E nf nsel x y fr =
           Inr (Degenerate, fr\<lparr>warned := warned fr @ [SparsityTooBig t],
                               coef := Some (replicate (length (ind fr)) 0)\<rparr>)"
  using assms by (simp add: STLSQ_round_def)

lemma no_change_after_append:
  "no_change (s\<lparr>history_attr := h @ [c]\<rparr>) =
     Inr (same_pattern c (case rev h of [] \<Rightarrow> replicate (length c) 0 | l # _ \<Rightarrow> l))"
  by (simp add: no_change_def)

lemma STLSQ_round_threshold:
  assumes h: "hyper (self fr) = STLSQ t a mi kw" and ne: "np_count_true (ind fr) \<noteq> 0"
    and r: "STLSQ_round E nf nsel x y fr = Inr (st, fr')"
  obtains xs cf s2 c big where
    "select_columns x (ind fr) = Inr xs"
    "ridge_regression E xs y a (case kw of None \<Rightarrow> [] | Some k \<Rightarrow> k) = Inr cf"
    "sparse_coefficients ((self fr)\<lparr>iters := iters (self fr) + 1\<rparr>) nf (ind fr) cf t
       = Inr (s2, c, big)"
    "fr' = fr\<lparr>self := s2, coef := Some c, ind := big\<rparr>"
    "st \<noteq> Degenerate"
    "st = Converged \<longleftrightarrow>
       np_count_true big = nsel \<or>
       same_pattern c (case rev (history_attr (self fr)) of
                         [] \<Rightarrow> replicate (length c) 0 | l # _ \<Rightarrow> l)"
proof -
  from r h ne obtain xs where xs: "select_columns x (ind fr) = Inr xs"
    by (auto simp: STLSQ_round_def split: sum.splits)
  from r h ne xs obtain s1 cf where reg: "STLSQ_regress E (self fr) xs y = Inr (s1, cf)"
    by (auto simp: STLSQ_round_def split: sum.splits)
  with h have cf: "ridge_regression E xs y a (case kw of None \<Rightarrow> [] | Some k \<Rightarrow> k) = Inr cf"
    and s1: "s1 = (self fr)\<lparr>iters := iters (self fr) + 1\<rparr>"
    by (auto simp: STLSQ_regress_def split: sum.splits)
  from r h ne xs reg obtain s2 c big where
    sp: "sparse_coefficients s1 nf (ind fr) cf t = Inr (s2, c, big)"
    by (auto simp: STLSQ_round_def split: sum.splits)
  have s2: "s2 = s1\<lparr>history_attr := history_attr s1 @ [c]\<rparr>"
    by (rule sparse_coefficients_Inr(1) [OF sp])
  have nc: "no_change s2 =
      Inr (same_pattern c (case rev (history_attr (self fr)) of
                             [] \<Rightarrow> replicate (length c) 0 | l # _ \<Rightarrow> l))"
    unfolding s2 by (simp add: no_change_after_append s1)
  from r h ne xs reg sp nc have
    fr': "fr' = fr\<lparr>self := s2, coef := Some c, ind := big\<rparr>"
    and st: "st = (if np_count_true big = nsel then Converged
                   else if same_pattern c (case rev (history_attr (self fr)) of
                             [] \<Rightarrow> replicate (length c) 0 | l # _ \<Rightarrow> l)
                        then Converged else Iterating)"
    by (auto simp: STLSQ_round_def Let_def split: if_splits)
  show thesis
    by (rule that [OF xs cf sp [unfolded s1] fr']) (auto simp: st)
qed

lemma STLSQ_round_hyper:
  assumes "hyper (self fr) = STLSQ t a mi kw" and "STLSQ_round E nf nsel x y fr = Inr (st, fr')"
  shows "hyper (self fr') = STLSQ t a mi kw"
proof (cases "np_count_true (ind fr) = 0")
  case True
  with assms show ?thesis by (auto simp: STLSQ_round_degenerate)
next
  case False
  from assms(1) False assms(2) show ?thesis
    by (rule STLSQ_round_threshold)
       (use assms(1) in \<open>auto dest!: sparse_coefficients_Inr(1)\<close>)
qed

lemma count_true_mono:
  "list_all2 (\<lambda>p q. p \<longrightarrow> q) a b \<Longrightarrow> np_count_true a \<le> np_count_true b"
  by (induction rule: list_all2_induct) (auto simp: np_count_true_def)

lemma mask_eq_of_count:
  "list_all2 (\<lambda>p q. p \<longrightarrow> q) a b \<Longrightarrow> np_count_true a = np_count_true b \<Longrightarrow> a = b"
proof (induction rule: list_all2_induct)
  case Nil
  then show ?case by simp
next
  case (Cons p a q b)
  from Cons.hyps(2) have "np_count_true a \<le> np_count_true b" by (rule count_true_mono)
  with Cons show ?case by (cases p; cases q) (auto simp: np_count_true_def)
qed

lemma mask_le_refl: "list_all2 (\<lambda>p q. p \<longrightarrow> q) m m"
  by (simp add: list_all2_refl)

lemma mask_le_trans:
  assumes "list_all2 (\<lambda>p q. p \<longrightarrow> q) a b" and "list_all2 (\<lambda>p q. p \<longrightarrow> q) b c"
  shows "list_all2 (\<lambda>p q. p \<longrightarrow> q) a c"
  by (rule list_all2_trans [OF _ assms]) simp

text \<open>The mask that a round leaves is below the mask it started from.\<close>

lemma STLSQ_round_mask:
  assumes h: "hyper (self fr) = STLSQ t a mi kw"
    and len: "length (ind fr) = nf"
    and inv: "0 < t \<or> ind fr = replicate nf True"
    and r: "STLSQ_round E nf nsel x y fr = Inr (st, fr')"
  shows "list_all2 (\<lambda>p q. p \<longrightarrow> q) (ind fr') (ind fr)"
    and "0 < t \<or> ind fr' = replicate nf True"
proof -
  have "list_all2 (\<lambda>p q. p \<longrightarrow> q) (ind fr') (ind fr) \<and> (0 < t \<or> ind fr' = replicate nf True)"
  proof (cases "np_count_true (ind fr) = 0")
    case True
    with h r have "ind fr' = ind fr" by (auto simp: STLSQ_round_degenerate)
    with inv show ?thesis by (simp add: mask_le_refl)
  next
    case False
    from h False r show ?thesis
    proof (rule STLSQ_round_threshold)
      fix xs cf s2 c big
      assume sp: "sparse_coefficients ((self fr)\<lparr>iters := iters (self fr) + 1\<rparr>) nf (ind fr) cf t
                    = Inr (s2, c, big)"
        and fr': "fr' = fr\<lparr>self := s2, coef := Some c, ind := big\<rparr>"
      note S = sparse_coefficients_Inr [OF sp]
      show ?thesis
      proof (cases "0 < t")
        case True
        have "big ! i \<longrightarrow> ind fr ! i" if "i < nf" for i
          using S(6) [of i] S(7) [of i] that True by (cases "ind fr ! i") auto
        then have "list_all2 (\<lambda>p q. p \<longrightarrow> q) big (ind fr)"
          using S(3) len by (simp add: list_all2_conv_all_nth)
        with True show ?thesis by (simp add: fr')
      next
        case False
        with inv have all: "ind fr = replicate nf True" by simp
        have "big ! i" if "i < nf" for i
          using S(8) [of i] that False by auto
        then have big: "big = replicate nf True"
          using S(3) by (simp add: list_eq_iff_nth_eq)
        show ?thesis by (simp add: fr' big all list_all2_refl)
      qed
    qed
  qed
  then show "list_all2 (\<lambda>p q. p \<longrightarrow> q) (ind fr') (ind fr)"
    and "0 < t \<or> ind fr' = replicate nf True" by simp_all
qed

lemma STLSQ_masks_0: "STLSQ_masks E nf nsel x y 0 fr = [ind fr]"
  by (simp add: STLSQ_masks_def)

lemma STLSQ_masks_Suc:
  "STLSQ_masks E nf nsel x y (Suc k) fr =
     (case STLSQ_round E nf nsel x y fr of
        Inl e \<Rightarrow> [ind fr]
      | Inr (Iterating, fr') \<Rightarrow> ind fr # STLSQ_masks E nf nsel x y k fr'
      | Inr (Degenerate, fr') \<Rightarrow> [ind fr, ind fr']
      | Inr (Converged, fr') \<Rightarrow> [ind fr, ind fr'])"
  by (simp add: STLSQ_masks_def split: sum.splits step.splits)

lemma STLSQ_masks_decreasing:
  assumes "hyper (self fr) = STLSQ t a mi kw" and "length (ind fr) = nf"
    and "0 < t \<or> ind fr = replicate nf True"
  shows "sorted_wrt (\<lambda>p q. list_all2 (\<lambda>u v. u \<longrightarrow> v) q p) (STLSQ_masks E nf nsel x y k fr)
         \<and> (\<forall>m \<in> set (STLSQ_masks E nf nsel x y k fr). list_all2 (\<lambda>u v. u \<longrightarrow> v) m (ind fr))"
  using assms
proof (induction k arbitrary: fr)
  case 0
  then show ?case by (simp add: STLSQ_masks_0 mask_le_refl)
next
  case (Suc k)
  show ?case
  proof (cases "STLSQ_round E nf nsel x y fr")
    case (Inl e)
    then show ?thesis by (simp add: STLSQ_masks_Suc mask_le_refl)
  next
    case (Inr p)
    obtain st fr' where p: "p = (st, fr')" by (cases p)
    note r = Inr [unfolded p]
    note le = STLSQ_round_mask [OF Suc.prems r]
    have len': "length (ind fr') = nf"
      using le(1) Suc.prems(2) by (auto dest: list_all2_lengthD)
    show ?thesis
    proof (cases st)
      case Iterating
      have h': "hyper (self fr') = STLSQ t a mi kw"
        by (rule STLSQ_round_hyper [OF Suc.prems(1) r])
      from Suc.IH [OF h' len' le(2)]
      have srt: "sorted_wrt (\<lambda>p q. list_all2 (\<lambda>u v. u \<longrightarrow> v) q p) (STLSQ_masks E nf nsel x y k fr')"
        and below: "\<forall>m \<in> set (STLSQ_masks E nf nsel x y k fr'). list_all2 (\<lambda>u v. u \<longrightarrow> v) m (ind fr')"
        by simp_all
      from below le(1)
      have below': "\<forall>m \<in> set (STLSQ_masks E nf nsel x y k fr'). list_all2 (\<lambda>u v. u \<longrightarrow> v) m (ind fr)"
        by (blast intro: mask_le_trans)
      show ?thesis
        using srt below' by (simp add: STLSQ_masks_Suc r Iterating mask_le_refl)
    next
      case Degenerate
      then show ?thesis using le(1) by (simp add: STLSQ_masks_Suc r mask_le_refl)
    next
      case Converged
      then show ?thesis using le(1) by (simp add: STLSQ_masks_Suc r mask_le_refl)
    qed
  qed
qed

text \<open>The loop returns the last recorded mask.\<close>

lemma STLSQ_else_ind: "STLSQ_else fr = Inr fr' \<Longrightarrow> ind fr' = ind fr"
  by (auto simp: STLSQ_else_def Let_def split: hyper.splits option.splits)

lemma STLSQ_for_last_mask:
  "STLSQ_for E nf nsel x y k fr = Inr fr' \<Longrightarrow> ind fr' = last (STLSQ_masks E nf nsel x y k fr)"
proof (induction k arbitrary: fr)
  case 0
  then show ?case by (simp add: STLSQ_masks_0 STLSQ_else_ind)
next
  case (Suc k)
  show ?case
  proof (cases "STLSQ_round E nf nsel x y fr")
    case (Inl e)
    with Suc.prems show ?thesis by simp
  next
    case (Inr p)
    obtain st fr1 where p: "p = (st, fr1)" by (cases p)
    show ?thesis
    proof (cases st)
      case Iterating
      with Suc.prems Inr p have "STLSQ_for E nf nsel x y k fr1 = Inr fr'" by simp
      from Suc.IH [OF this] show ?thesis
        by (simp add: STLSQ_masks_Suc Inr p Iterating STLSQ_masks_def)
    next
      case Degenerate
      with Suc.prems Inr p show ?thesis by (simp add: STLSQ_masks_Suc)
    next
      case Converged
      with Suc.prems Inr p show ?thesis by (simp add: STLSQ_masks_Suc)
    qed
  qed
qed

lemma fit_init_Inr:
  assumes "fit_init E slf x y = Inr s0"
  obtains g where "lstsq E x y = Inr g"
    "s0 = slf\<lparr>iters := 0, ind_attr := replicate (length x) True, coef_attr := g,
              history_attr := history_attr slf @ [g]\<rparr>"
  using assms by (auto simp: fit_init_def split: sum.splits)

lemma STLSQ_rounds_Suc:
  "STLSQ_rounds E nf nsel x y (Suc k) fr =
     (case STLSQ_round E nf nsel x y fr of
        Inl e \<Rightarrow> []
      | Inr (st, fr') \<Rightarrow>
          (fr, st, fr') # (if st = Iterating then STLSQ_rounds E nf nsel x y k fr' else []))"
  by (simp split: sum.splits step.splits)

text \<open>Every recorded round is a pass through the loop body from a frame that an
  invariant of the continuing rounds holds for.\<close>

lemma STLSQ_rounds_invariant:
  assumes step: "\<And>fr fr'. P fr \<Longrightarrow> STLSQ_round E nf nsel x y fr = Inr (Iterating, fr') \<Longrightarrow> P fr'"
    and "P fr0" and "(fr, st, fr') \<in> set (STLSQ_rounds E nf nsel x y k fr0)"
  shows "P fr \<and> STLSQ_round E nf nsel x y fr = Inr (st, fr')"
  using assms(2,3)
proof (induction k arbitrary: fr0)
  case 0
  then show ?case by simp
next
  case (Suc k)
  show ?case
  proof (cases "STLSQ_round E nf nsel x y fr0")
    case (Inl e)
    with Suc.prems show ?thesis by simp
  next
    case (Inr p)
    obtain st1 fr1 where p: "p = (st1, fr1)" by (cases p)
    from Suc.prems(2) Inr p
    consider "(fr, st, fr') = (fr0, st1, fr1)"
      | "st1 = Iterating" "(fr, st, fr') \<in> set (STLSQ_rounds E nf nsel x y k fr1)"
      by (auto simp: STLSQ_rounds_Suc simp del: STLSQ_rounds.simps split: if_splits)
    then show ?thesis
    proof cases
      case 1
      with Suc.prems(1) Inr p show ?thesis by simp
    next
      case 2
      from step [OF Suc.prems(1)] Inr p 2(1) have "P fr1" by simp
      from Suc.IH [OF this 2(2)] show ?thesis .
    qed
  qed
qed

lemma same_pattern_eq:
  "length u = length v \<Longrightarrow>
     same_pattern u v \<longleftrightarrow> map (\<lambda>z. z \<noteq> 0) u = map (\<lambda>z. z \<noteq> 0) v"
  by (induction u v rule: list_induct2) (auto simp: same_pattern_def)

lemma rev_case_last:
  "h \<noteq> [] \<Longrightarrow> (case rev h of [] \<Rightarrow> z | l # _ \<Rightarrow> l) = last h"
  by (cases h rule: rev_cases) auto

text \<open>With a positive threshold the nonzero pattern of the thresholded vector is the
  new mask.\<close>

lemma sparse_coefficients_pattern:
  assumes "sparse_coefficients s d m cf t = Inr (s', c, big)" and "0 < t"
  shows "map (\<lambda>z. z \<noteq> 0) c = big"
proof -
  note S = sparse_coefficients_Inr [OF assms(1)]
  have "(c ! i \<noteq> 0) = big ! i" if "i < d" for i
    using S(5) [of i] S(6) [of i] that assms(2) by (cases "big ! i") auto
  then show ?thesis using S(2,3) by (simp add: list_eq_iff_nth_eq)
qed

lemma STLSQ_round_stop:
  assumes J: "stop_inv t a mi kw nf fr"
    and r: "STLSQ_round E nf nf x y fr = Inr (st, fr')"
    and nd: "st \<noteq> Degenerate"
  shows "butlast (history_attr (self fr')) = history_attr (self fr)"
    and "st = Converged \<longleftrightarrow>
           np_count_true (ind fr') = np_count_true (ind fr) \<or>
           same_pattern (last (history_attr (self fr'))) (last (history_attr (self fr)))"
    and "st = Iterating \<Longrightarrow> stop_inv t a mi kw nf fr'"
proof -
  from J have h: "hyper (self fr) = STLSQ t a mi kw" and len: "length (ind fr) = nf"
    and hne: "history_attr (self fr) \<noteq> []"
    and alt: "ind fr = replicate nf True \<or>
      (0 < t \<and> np_count_true (ind fr) < nf \<and>
       map (\<lambda>z. z \<noteq> 0) (last (history_attr (self fr))) = ind fr)"
    by (simp_all add: stop_inv_def)
  from alt have inv: "0 < t \<or> ind fr = replicate nf True" by auto
  have ne: "np_count_true (ind fr) \<noteq> 0"
    using STLSQ_round_degenerate [OF h, of E nf nf x y] r nd by auto
  note le = STLSQ_round_mask [OF h len inv r]
  from h ne r obtain xs cf s2 c big where
    sp: "sparse_coefficients ((self fr)\<lparr>iters := iters (self fr) + 1\<rparr>) nf (ind fr) cf t
           = Inr (s2, c, big)"
    and fr': "fr' = fr\<lparr>self := s2, coef := Some c, ind := big\<rparr>"
    and conv: "st = Converged \<longleftrightarrow>
       np_count_true big = nf \<or>
       same_pattern c (case rev (history_attr (self fr)) of
                         [] \<Rightarrow> replicate (length c) 0 | l # _ \<Rightarrow> l)"
    by (rule STLSQ_round_threshold) blast
  note S = sparse_coefficients_Inr [OF sp]
  have hist: "history_attr (self fr') = history_attr (self fr) @ [c]"
    by (simp add: fr' S(1))
  have ind': "ind fr' = big" by (simp add: fr')
  have conv': "st = Converged \<longleftrightarrow>
       np_count_true big = nf \<or> same_pattern c (last (history_attr (self fr)))"
    using conv by (simp add: rev_case_last [OF hne])
  show "butlast (history_attr (self fr')) = history_attr (self fr)"
    by (simp add: hist)
  have eqv: "(np_count_true big = nf \<or> same_pattern c (last (history_attr (self fr)))) \<longleftrightarrow>
      (np_count_true big = np_count_true (ind fr) \<or> same_pattern c (last (history_attr (self fr))))"
  proof (cases "ind fr = replicate nf True")
    case True
    then have "np_count_true (ind fr) = nf" by (metis count_true_replicate)
    then show ?thesis by simp
  next
    case False
    with alt have pos: "0 < t" and lt: "np_count_true (ind fr) < nf"
      and pat: "map (\<lambda>z. z \<noteq> 0) (last (history_attr (self fr))) = ind fr" by simp_all
    from le(1) ind' have ble: "list_all2 (\<lambda>p q. p \<longrightarrow> q) big (ind fr)" by simp
    have notfull: "np_count_true big \<noteq> nf"
      using count_true_mono [OF ble] lt by simp
    have "same_pattern c (last (history_attr (self fr)))"
      if "np_count_true big = np_count_true (ind fr)"
    proof -
      from mask_eq_of_count [OF ble that] have "big = ind fr" .
      moreover have "length (last (history_attr (self fr))) = length c"
        using pat len S(2) by (metis length_map)
      ultimately show ?thesis
        using sparse_coefficients_pattern [OF sp pos] pat
        by (simp add: same_pattern_eq)
    qed
    with notfull show ?thesis by auto
  qed
  show "st = Converged \<longleftrightarrow>
           np_count_true (ind fr') = np_count_true (ind fr) \<or>
           same_pattern (last (history_attr (self fr'))) (last (history_attr (self fr)))"
    using conv' eqv by (simp add: hist ind')
  show "stop_inv t a mi kw nf fr'" if it: "st = Iterating"
  proof -
    from it conv' have nfull: "np_count_true big \<noteq> nf" by auto
    have pos: "0 < t"
    proof (rule ccontr)
      assume "\<not> 0 < t"
      with le(2) ind' have "big = replicate nf True" by simp
      with nfull show False by (metis count_true_replicate)
    qed
    have "np_count_true big < nf"
      using count_true_le_length [of big] S(3) nfull by simp
    moreover have "hyper (self fr') = STLSQ t a mi kw"
      by (rule STLSQ_round_hyper [OF h r])
    ultimately show ?thesis
      using pos sparse_coefficients_pattern [OF sp pos] S(3)
      by (simp add: stop_inv_def hist ind')
  qed
qed

lemma STLSQ_rounds_last:
  "(fr, st, fr') \<in> set (STLSQ_rounds E nf nsel x y k fr0) \<Longrightarrow> st \<noteq> Iterating
   \<Longrightarrow> STLSQ_for E nf nsel x y k fr0 = Inr fr'"
proof (induction k arbitrary: fr0)
  case 0
  then show ?case by simp
next
  case (Suc k)
  show ?case
  proof (cases "STLSQ_round E nf nsel x y fr0")
    case (Inl e)
    with Suc.prems show ?thesis by simp
  next
    case (Inr p)
    obtain st1 fr1 where p: "p = (st1, fr1)" by (cases p)
    show ?thesis
    proof (cases st1)
      case Iterating
      with Suc.prems Inr p have "(fr, st, fr') \<in> set (STLSQ_rounds E nf nsel x y k fr1)"
        by auto
      from Suc.IH [OF this Suc.prems(2)] show ?thesis by (simp add: Inr p Iterating)
    next
      case Degenerate
      with Suc.prems Inr p show ?thesis by auto
    next
      case Converged
      with Suc.prems Inr p show ?thesis by auto
    qed
  qed
qed

lemma STLSQ_round_length:
  assumes "hyper (self fr) = STLSQ t a mi kw" and "STLSQ_round E nf nsel x y fr = Inr (st, fr')"
    and "st \<noteq> Degenerate"
  shows "length (ind fr') = nf"
proof -
  have ne: "np_count_true (ind fr) \<noteq> 0"
    using STLSQ_round_degenerate [OF assms(1), of E nf nsel x y] assms(2,3) by auto
  from assms(1) ne assms(2) show ?thesis
    by (rule STLSQ_round_threshold) (auto dest: sparse_coefficients_Inr(3))
qed

lemma count_true_none: "np_count_true m = 0 \<Longrightarrow> m = replicate (length m) False"
  by (induction m) (auto simp: np_count_true_def split: if_splits)

lemma STLSQ_empty_support:
  assumes h: "hyper s0 = STLSQ t a mi kw" and len: "length (ind_attr s0) = length x"
    and mem: "(fr, st, fr') \<in> set (STLSQ_rounds E (length x) nsel x y k (STLSQ_frame0 s0))"
    and empty: "np_count_true (ind fr) = 0"
  shows "st = Degenerate"
    and "ind fr = replicate (length x) False"
    and "STLSQ_for E (length x) nsel x y k (STLSQ_frame0 s0) =
           Inr (fr\<lparr>warned := warned fr @ [SparsityTooBig t],
                   coef := Some (replicate (length x) 0)\<rparr>)"
proof -
  let ?P = "\<lambda>f. hyper (self f) = STLSQ t a mi kw \<and> length (ind f) = length x"
  have "?P fr \<and> STLSQ_round E (length x) nsel x y fr = Inr (st, fr')"
  proof (rule STLSQ_rounds_invariant [where P = ?P, OF _ _ mem])
    show "?P (STLSQ_frame0 s0)" using h len by (simp add: STLSQ_frame0_def)
    show "?P f'" if "?P f" and "STLSQ_round E (length x) nsel x y f = Inr (Iterating, f')" for f f'
      using that STLSQ_round_hyper [of f t a mi kw E "length x" nsel x y Iterating f']
        STLSQ_round_length [of f t a mi kw E "length x" nsel x y Iterating f'] by simp
  qed
  then have hf: "hyper (self fr) = STLSQ t a mi kw" and lf: "length (ind fr) = length x"
    and r: "STLSQ_round E (length x) nsel x y fr = Inr (st, fr')" by simp_all
  from r STLSQ_round_degenerate [OF hf empty, of E "length x" nsel x y]
  have st: "st = Degenerate"
    and fr': "fr' = fr\<lparr>warned := warned fr @ [SparsityTooBig t],
                       coef := Some (replicate (length x) 0)\<rparr>"
    by (simp_all add: lf)
  show "st = Degenerate" by (rule st)
  show "ind fr = replicate (length x) False"
    using count_true_none [OF empty] lf by simp
  show "STLSQ_for E (length x) nsel x y k (STLSQ_frame0 s0) =
           Inr (fr\<lparr>warned := warned fr @ [SparsityTooBig t],
                   coef := Some (replicate (length x) 0)\<rparr>)"
    using STLSQ_rounds_last [OF mem] st fr' by simp
qed

text \<open>The normal equations on the identity.\<close>

lemma normal_equations_identity3:
  assumes "normal_equations identity3 y123 alpha w" and "0 \<le> alpha"
  shows "w = [1 / (1 + alpha), 2 / (1 + alpha), 3 / (1 + alpha)]"
proof -
  from assms(1) have "length w = 3" by (simp add: normal_equations_def identity3_def)
  then obtain w0 w1 w2 where w: "w = [w0, w1, w2]"
    by (auto simp: length_Suc_conv eval_nat_numeral)
  from assms(1) have "w0 + alpha * w0 = 1" "w1 + alpha * w1 = 2" "w2 + alpha * w2 = 3"
    by (simp_all add: normal_equations_def identity3_def y123_def dot_def w eval_nat_numeral)
  then have "(1 + alpha) * w0 = 1" "(1 + alpha) * w1 = 2" "(1 + alpha) * w2 = 3"
    by (simp_all add: algebra_simps)
  moreover from assms(2) have "1 + alpha \<noteq> 0" by simp
  ultimately show ?thesis by (simp add: w field_simps)
qed

lemma small_quotient:
  assumes "0 \<le> (alpha::real)" and "\<bar>c\<bar> < 10"
  shows "\<not> 10 \<le> \<bar>c / (1 + alpha)\<bar>"
proof -
  have "\<bar>c / (1 + alpha)\<bar> = \<bar>c\<bar> / (1 + alpha)" using assms(1) by simp
  also have "\<dots> \<le> \<bar>c\<bar> / 1" using assms(1) by (intro divide_left_mono) auto
  finally show ?thesis using assms(2) by simp
qed

lemma sparse_coefficients_zero_threshold:
  assumes "length w = n" and "t \<le> 0"
  shows "sparse_coefficients s n (replicate n True) w t =
           Inr (s\<lparr>history_attr := history_attr s @ [w]\<rparr>, w, replicate n True)"
proof -
  have big: "map (\<lambda>v. t \<le> \<bar>v\<bar>) w = replicate n True"
    using assms by (auto simp: list_eq_iff_nth_eq intro: order_trans [of t 0])
  have keep: "map2 (\<lambda>v b. if b then v else 0) w (replicate n True) = w"
    using assms(1) by (simp add: list_eq_iff_nth_eq)
  show ?thesis
    by (simp add: sparse_coefficients_def mask_assign_all_true [OF assms(1)] big keep)
qed

lemma STLSQ_round_zero_off_mask:
  assumes "STLSQ_round E nf nsel x y fr = Inr (st, fr')"
  shows "\<exists>c. coef fr' = Some c \<and> zero_off_mask c (ind fr')"
proof -
  from assms obtain t a mi kw where h: "hyper (self fr) = STLSQ t a mi kw"
    by (auto simp: STLSQ_round_def split: hyper.splits)
  show ?thesis
  proof (cases "np_count_true (ind fr) = 0")
    case True
    with assms h show ?thesis
      by (auto simp: STLSQ_round_degenerate zero_off_mask_def)
  next
    case False
    from h False assms show ?thesis
    proof (rule STLSQ_round_threshold)
      fix xs cf s2 c big
      assume sp: "sparse_coefficients ((self fr)\<lparr>iters := iters (self fr) + 1\<rparr>) nf (ind fr) cf t
                    = Inr (s2, c, big)"
        and fr': "fr' = fr\<lparr>self := s2, coef := Some c, ind := big\<rparr>"
      note S = sparse_coefficients_Inr [OF sp]
      show ?thesis
        using S(2) S(3) S(5) by (simp add: fr' zero_off_mask_def)
    qed
  qed
qed

lemma STLSQ_for_zero_off_mask:
  assumes "STLSQ_for E nf nsel x y k fr = Inr fr'"
    and "case coef fr of None \<Rightarrow> ind fr = replicate (length (ind fr)) True
         | Some c \<Rightarrow> zero_off_mask c (ind fr)"
  shows "\<exists>c. coef fr' = Some c \<and> zero_off_mask c (ind fr')"
  using assms
proof (induction k arbitrary: fr)
  case 0
  have all: "zero_off_mask cc (ind fr)" if "coef fr = None" for cc
  proof -
    from that "0.prems"(2) have e: "ind fr = replicate (length (ind fr)) True" by simp
    have "ind fr ! i" if "i < length (ind fr)" for i
      by (subst e) (simp add: that)
    then show ?thesis by (simp add: zero_off_mask_def)
  qed
  from "0.prems" all show ?case
    by (auto simp: STLSQ_else_def Let_def split: hyper.splits option.splits)
next
  case (Suc k)
  show ?case
  proof (cases "STLSQ_round E nf nsel x y fr")
    case (Inl e)
    with Suc.prems show ?thesis by simp
  next
    case (Inr p)
    obtain st fr1 where p: "p = (st, fr1)" by (cases p)
    from STLSQ_round_zero_off_mask [OF Inr [unfolded p]]
    obtain c where c: "coef fr1 = Some c" "zero_off_mask c (ind fr1)" by blast
    show ?thesis
    proof (cases st)
      case Iterating
      with Suc.prems Inr p have "STLSQ_for E nf nsel x y k fr1 = Inr fr'" by simp
      from Suc.IH [OF this] c show ?thesis by simp
    next
      case Degenerate
      with Suc.prems Inr p c show ?thesis by auto
    next
      case Converged
      with Suc.prems Inr p c show ?thesis by auto
    qed
  qed
qed

lemma SR3_round_prox:
  assumes "SR3_round E ch xty fr = Inr (b, fr')"
    and "hyper (sr3_self fr) = SR3 t nu tol nm prox mi"
  shows "hyper (sr3_self fr') = SR3 t nu tol nm prox mi"
    and "\<exists>w. coef_full fr' = Some w \<and> coef_sparse fr' = prox w t"
  using assms
  by (auto simp: SR3_round_def SR3_update_full_coef_def SR3_update_sparse_coef_def Let_def
      split: sum.splits hyper.splits)

lemma SR3_for_prox:
  assumes "SR3_for E ch xty k fr = Inr (fr', ws)"
    and "hyper (sr3_self fr) = SR3 t nu tol nm prox mi"
    and "\<forall>w. coef_full fr = Some w \<longrightarrow> coef_sparse fr = prox w t"
  shows "hyper (sr3_self fr') = SR3 t nu tol nm prox mi
         \<and> (\<forall>w. coef_full fr' = Some w \<longrightarrow> coef_sparse fr' = prox w t)"
  using assms
proof (induction k arbitrary: fr)
  case 0
  then show ?case by (auto split: hyper.splits)
next
  case (Suc k)
  show ?case
  proof (cases "SR3_round E ch xty fr")
    case (Inl e)
    with Suc.prems show ?thesis by simp
  next
    case (Inr p)
    obtain b fr1 where p: "p = (b, fr1)" by (cases p)
    note R = SR3_round_prox [OF Inr [unfolded p] Suc.prems(2)]
    show ?thesis
    proof (cases b)
      case True
      with Suc.prems(1) Inr p have "fr' = fr1" by simp
      with R show ?thesis by auto
    next
      case False
      with Suc.prems(1) Inr p have "SR3_for E ch xty k fr1 = Inr (fr', ws)" by simp
      from Suc.IH [OF this R(1)] R(2) show ?thesis by auto
    qed
  qed
qed

lemma SR3_reduce_prox:
  assumes h: "hyper s0 = SR3 t nu tol nm prox mi"
    and red: "SR3_reduce E s0 x y = Inr (s1, ws)"
  shows "\<exists>w. coef_full_attr s1 = Some w \<and> coef_attr s1 = prox w t"
proof -
  let ?fr = "\<lparr>sr3_self = s0, coef_sparse = coef_attr s0, coef_full = None\<rparr>"
  from red h obtain ch fr' w where
    f: "SR3_for E ch (transpose_dot x y) (nat mi) ?fr = Inr (fr', ws)"
    and w: "coef_full fr' = Some w"
    and s1: "s1 = (sr3_self fr')\<lparr>coef_attr := coef_sparse fr', coef_full_attr := Some w\<rparr>"
    by (auto simp: SR3_reduce_def split: sum.splits option.splits)
  from SR3_for_prox [OF f, of t nu tol nm prox mi] h w
  have "coef_sparse fr' = prox w t" by simp
  then show ?thesis by (simp add: s1)
qed

lemmas example_defs = stlsq_model_def entry_state_def after_rounds_def BaseOptimizer_init_def
  identity3_def y123_def ortho_externals_def transpose_dot_def dot_def fit_init_def
  STLSQ_frame0_def

lemmas round_defs = STLSQ_round_def select_columns_def STLSQ_regress_def sparse_coefficients_def
  mask_assign_def no_change_def same_pattern_def np_count_true_def Let_def eval_nat_numeral

lemma example_init:
  "fit_init ortho_externals (stlsq_model t mi) identity3 y123 = Inr (entry_state t mi)"
  by (simp add: example_defs)

lemma example_hyper: "hyper (stlsq_model t mi) = STLSQ t 0 mi None"
  by (simp add: stlsq_model_def BaseOptimizer_init_def)

lemma example_nsel: "np_count_true (ind_attr (entry_state t mi)) = 3"
  by (simp add: entry_state_def np_count_true_def)

lemma example_nf: "length identity3 = 3"
  by (simp add: identity3_def)

lemma drop_round1:
  "STLSQ_round ortho_externals 3 3 identity3 y123 (STLSQ_frame0 (entry_state (3/2) mi)) =
     Inr (Iterating, after_rounds (3/2) mi 1 [[0, 2, 3]] [False, True, True])"
  by (simp add: example_defs round_defs)

lemma drop_round2:
  "STLSQ_round ortho_externals 3 3 identity3 y123
     (after_rounds (3/2) mi 1 [[0, 2, 3]] [False, True, True]) =
     Inr (Converged, after_rounds (3/2) mi 2 [[0, 2, 3], [0, 2, 3]] [False, True, True])"
  by (simp add: example_defs round_defs)

lemma big_round1:
  "STLSQ_round ortho_externals 3 3 identity3 y123 (STLSQ_frame0 (entry_state 10 mi)) =
     Inr (Iterating, after_rounds 10 mi 1 [[0, 0, 0]] [False, False, False])"
  by (simp add: example_defs round_defs)

lemma big_round2:
  "STLSQ_round ortho_externals 3 3 identity3 y123
     (after_rounds 10 mi 1 [[0, 0, 0]] [False, False, False]) =
     Inr (Degenerate,
          (after_rounds 10 mi 1 [[0, 0, 0]] [False, False, False])
            \<lparr>warned := [SparsityTooBig 10], coef := Some [0, 0, 0]\<rparr>)"
  by (simp add: example_defs round_defs)

lemma twenty: "nat 20 = Suc (Suc 18)"
  by simp

lemma drop_rounds:
  "STLSQ_rounds ortho_externals 3 3 identity3 y123 (nat 20) (STLSQ_frame0 (entry_state (3/2) 20)) =
     [(STLSQ_frame0 (entry_state (3/2) 20), Iterating,
       after_rounds (3/2) 20 1 [[0, 2, 3]] [False, True, True]),
      (after_rounds (3/2) 20 1 [[0, 2, 3]] [False, True, True], Converged,
       after_rounds (3/2) 20 2 [[0, 2, 3], [0, 2, 3]] [False, True, True])]"
  by (simp only: twenty STLSQ_rounds.simps drop_round1 drop_round2 sum.case prod.case step.case)

lemma big_rounds:
  "STLSQ_rounds ortho_externals 3 3 identity3 y123 (nat 20) (STLSQ_frame0 (entry_state 10 20)) =
     [(STLSQ_frame0 (entry_state 10 20), Iterating,
       after_rounds 10 20 1 [[0, 0, 0]] [False, False, False]),
      (after_rounds 10 20 1 [[0, 0, 0]] [False, False, False], Degenerate,
       (after_rounds 10 20 1 [[0, 0, 0]] [False, False, False])
          \<lparr>warned := [SparsityTooBig 10], coef := Some [0, 0, 0]\<rparr>)]"
  by (simp only: twenty STLSQ_rounds.simps big_round1 big_round2 sum.case prod.case step.case)

lemma drop_masks:
  "STLSQ_masks ortho_externals 3 3 identity3 y123 (nat 20) (STLSQ_frame0 (entry_state (3/2) 20)) =
     [[True, True, True], [False, True, True], [False, True, True]]"
  by (simp only: STLSQ_masks_def drop_rounds)
     (simp add: STLSQ_frame0_def entry_state_def after_rounds_def)

lemma drop_loop:
  "STLSQ_for ortho_externals 3 3 identity3 y123 (nat 20) (STLSQ_frame0 (entry_state (3/2) 20)) =
     Inr (after_rounds (3/2) 20 2 [[0, 2, 3], [0, 2, 3]] [False, True, True])"
  by (simp only: twenty STLSQ_for.simps drop_round1 drop_round2 sum.case prod.case step.case)

lemma drop_reduce:
  "STLSQ_reduce ortho_externals (entry_state (3/2) 20) identity3 y123 =
     Inr ((entry_state (3/2) 20)\<lparr>iters := 2, history_attr := [[1, 2, 3], [0, 2, 3], [0, 2, 3]],
             coef_attr := [0, 2, 3], ind_attr := [False, True, True]\<rparr>, [])"
proof -
  have h: "hyper (entry_state (3/2) 20) = STLSQ (3/2) 0 20 None"
    by (simp add: entry_state_def example_hyper)
  show ?thesis
    unfolding STLSQ_reduce_def h hyper.case example_nsel example_nf drop_loop
    by (simp add: after_rounds_def)
qed

lemma example_preprocess:
  "fit_preprocess ortho_externals slf identity3 y123 None =
     Inr (identity3, y123, [0, 0, 0], 0, [1, 1, 1])"
  by (simp add: fit_preprocess_def ortho_externals_def identity3_def eval_nat_numeral)

lemma drop_fit:
  "fit ortho_externals (stlsq_model (3/2) 20) identity3 y123 None = Inr (fitted_once, [])"
proof -
  have h: "hyper (entry_state (3/2) 20) = STLSQ (3/2) 0 20 None"
    by (simp add: entry_state_def example_hyper)
  show ?thesis
    by (simp add: fit_def example_preprocess example_init reduce_def h drop_reduce)
       (simp add: ortho_externals_def fitted_once_def entry_state_def stlsq_model_def
          BaseOptimizer_init_def)
qed

lemma SR3_init_Inr:
  assumes "SR3_init E t nu tol nm mi nrm fi cx = Inr m"
  obtains p where "get_prox E nm = Inr p" "hyper m = SR3 t nu tol nm p mi"
  using assms
  by (auto simp: SR3_init_def BaseOptimizer_init_def split: if_splits sum.splits)

lemma sr3_example_built:
  "SR3_init ortho_externals (3/2) 1 (1/100000) ''l0'' 30 False False True = Inr sr3_model"
  by (simp add: SR3_init_def sr3_model_def ortho_externals_def spec_get_prox_def)

lemma sr3_example_init:
  "fit_init ortho_externals sr3_model identity3 y123 = Inr sr3_entry"
  by (simp add: fit_init_def sr3_entry_def sr3_model_def BaseOptimizer_init_def
      ortho_externals_def transpose_dot_def dot_def identity3_def y123_def)

lemma sr3_example_reduce:
  "SR3_reduce ortho_externals sr3_entry identity3 y123 =
     Inr (sr3_entry\<lparr>iters := 2, history_attr := [[1, 2, 3], [0, 2, 3], [0, 2, 3]],
                    coef_attr := [0, 2, 3], coef_full_attr := Some [1/2, 2, 3]\<rparr>, [])"
  by (simp add: SR3_reduce_def sr3_entry_def sr3_model_def BaseOptimizer_init_def
      ortho_externals_def sr3_matrix_def transpose_dot_def dot_def identity3_def y123_def
      SR3_round_def SR3_update_full_coef_def SR3_update_sparse_coef_def
      SR3_convergence_criterion_def np_broadcast_def prox_l0_def Let_def eval_nat_numeral)

lemma lasso_example_fit:
  "fit ortho_externals lasso_model identity3 y123 None =
     Inr (lasso_model\<lparr>iters := 1, ind_attr := [True, True, True], coef_attr := [0, 1, 2],
                      history_attr := [[1, 2, 3]], intercept_attr := Some 0\<rparr>, [])"
  by (simp add: fit_def example_preprocess)
     (simp add: fit_init_def reduce_def LASSO_reduce_def lasso_model_def BaseOptimizer_init_def
        ortho_externals_def transpose_dot_def dot_def identity3_def y123_def prox_l1_def)

subsection \<open>The support of \<open>STLSQ\<close> never grows\<close>

text \<open>
  C1. In a fit of \<open>STLSQ\<close>, take the values of the support mask in order: the one the
  loop is entered with, then the one each round leaves. From any of them to any later
  one the number of true entries does not grow, every mask has one entry per feature,
  and an index where the mask is false stays false. The mask written back to the
  instance is the last of them.
\<close>

theorem STLSQ_support_never_grows:
  assumes init: "fit_init E slf x y = Inr s0"
    and h: "hyper slf = STLSQ t a mi kw"
    and masks: "masks = STLSQ_masks E (length x) (np_count_true (ind_attr s0)) x y (nat mi)
                          (STLSQ_frame0 s0)"
    and jk: "j \<le> k" "k < length masks"
  shows "np_count_true (masks ! k) \<le> np_count_true (masks ! j)
         \<and> length (masks ! k) = length x
         \<and> (\<forall>i < length x. \<not> masks ! j ! i \<longrightarrow> \<not> masks ! k ! i)
         \<and> (\<forall>s1 ws. STLSQ_reduce E s0 x y = Inr (s1, ws) \<longrightarrow> ind_attr s1 = last masks)"
proof -
  from init obtain g where s0: "s0 = slf\<lparr>iters := 0, ind_attr := replicate (length x) True,
      coef_attr := g, history_attr := history_attr slf @ [g]\<rparr>"
    by (rule fit_init_Inr)
  let ?fr = "STLSQ_frame0 s0"
  have h0: "hyper (self ?fr) = STLSQ t a mi kw" by (simp add: STLSQ_frame0_def s0 h)
  have len0: "length (ind ?fr) = length x" by (simp add: STLSQ_frame0_def s0)
  have inv0: "0 < t \<or> ind ?fr = replicate (length x) True" by (simp add: STLSQ_frame0_def s0)
  note D = STLSQ_masks_decreasing [OF h0 len0 inv0, of E "np_count_true (ind_attr s0)" x y "nat mi",
      folded masks]
  have le: "list_all2 (\<lambda>u v. u \<longrightarrow> v) (masks ! k) (masks ! j)"
  proof (cases "j = k")
    case True
    then show ?thesis by (simp add: mask_le_refl)
  next
    case False
    with jk have "j < k" by simp
    with D jk(2) show ?thesis by (simp add: sorted_wrt_iff_nth_less)
  qed
  have "masks ! j \<in> set masks" using jk by simp
  with D have "list_all2 (\<lambda>u v. u \<longrightarrow> v) (masks ! j) (ind ?fr)" by blast
  then have lenj: "length (masks ! j) = length x"
    using len0 by (auto dest: list_all2_lengthD)
  with le have lenk: "length (masks ! k) = length x" by (auto dest: list_all2_lengthD)
  have drop: "\<not> masks ! k ! i" if "i < length x" "\<not> masks ! j ! i" for i
    using le that lenk by (auto simp: list_all2_conv_all_nth)
  have fin: "ind_attr s1 = last masks" if "STLSQ_reduce E s0 x y = Inr (s1, ws)" for s1 ws
  proof -
    from that h obtain fr' where
      f: "STLSQ_for E (length x) (np_count_true (ind_attr s0)) x y (nat mi) ?fr = Inr fr'"
      and s1: "ind_attr s1 = ind fr'"
      by (auto simp: STLSQ_reduce_def s0 split: sum.splits option.splits)
    from STLSQ_for_last_mask [OF f] s1 show ?thesis by (simp add: masks)
  qed
  from count_true_mono [OF le] lenk drop fin show ?thesis by blast
qed

theorem STLSQ_support_never_grows_witness:
  "fit_init ortho_externals (stlsq_model (3/2) 20) identity3 y123 = Inr (entry_state (3/2) 20)
   \<and> STLSQ_masks ortho_externals 3 3 identity3 y123 (nat 20) (STLSQ_frame0 (entry_state (3/2) 20))
       = [[True, True, True], [False, True, True], [False, True, True]]
   \<and> np_count_true [False, True, True] \<le> np_count_true [True, True, True]
   \<and> \<not> [False, True, True] ! 0"
proof -
  let ?M = "[[True, True, True], [False, True, True], [False, True, True]]"
  have m: "?M = STLSQ_masks ortho_externals (length identity3)
                  (np_count_true (ind_attr (entry_state (3/2) 20))) identity3 y123 (nat 20)
                  (STLSQ_frame0 (entry_state (3/2) 20))"
    by (simp only: example_nf example_nsel drop_masks)
  note T = STLSQ_support_never_grows [OF example_init example_hyper m]
  have a: "np_count_true (?M ! 1) \<le> np_count_true (?M ! 0)"
    using T [of 0 1] by simp
  have "\<not> ?M ! 1 ! 0" by simp
  with T [of 1 2] have b: "\<not> ?M ! 2 ! 0" by (simp add: example_nf)
  from a b example_init drop_masks show ?thesis by simp
qed

subsection \<open>The stopping test of \<open>STLSQ\<close>\<close>

text \<open>
  C2, as amended. In a fit of \<open>STLSQ\<close>, a round that reaches the stopping test leaves
  the loop there exactly when, after thresholding, the support size equals the size
  the round was entered with, or the newest History entry has the zero/nonzero pattern
  of the entry before it. History is not empty when a round starts, since \<^verbatim>\<open>fit\<close> has
  appended the initial least-squares guess: that guess, and no all-zero baseline, is
  what the first round compares with.
\<close>

theorem STLSQ_stopping_test:
  assumes init: "fit_init E slf x y = Inr s0"
    and h: "hyper slf = STLSQ t a mi kw"
    and mem: "(fr, st, fr') \<in> set (STLSQ_rounds E (length x) (np_count_true (ind_attr s0)) x y
                                    (nat mi) (STLSQ_frame0 s0))"
    and nd: "st \<noteq> Degenerate"
  shows "lstsq E x y = Inr (last (history_attr s0))
         \<and> (fr = STLSQ_frame0 s0 \<longrightarrow> history_attr (self fr) = history_attr s0)
         \<and> history_attr (self fr) \<noteq> []
         \<and> history_attr (self fr') = history_attr (self fr) @ [last (history_attr (self fr'))]
         \<and> (st = Converged \<longleftrightarrow>
              np_count_true (ind fr') = np_count_true (ind fr) \<or>
              same_pattern (last (history_attr (self fr'))) (last (history_attr (self fr))))"
proof -
  from init obtain g where g: "lstsq E x y = Inr g"
    and s0: "s0 = slf\<lparr>iters := 0, ind_attr := replicate (length x) True,
      coef_attr := g, history_attr := history_attr slf @ [g]\<rparr>"
    by (rule fit_init_Inr)
  have nsel: "np_count_true (ind_attr s0) = length x" by (simp add: s0)
  have J0: "stop_inv t a mi kw (length x) (STLSQ_frame0 s0)"
    by (simp add: stop_inv_def STLSQ_frame0_def s0 h)
  have "stop_inv t a mi kw (length x) fr \<and> STLSQ_round E (length x) (length x) x y fr = Inr (st, fr')"
  proof (rule STLSQ_rounds_invariant [where P = "stop_inv t a mi kw (length x)", OF _ J0])
    show "stop_inv t a mi kw (length x) f'"
      if "stop_inv t a mi kw (length x) f"
        and "STLSQ_round E (length x) (length x) x y f = Inr (Iterating, f')" for f f'
      using STLSQ_round_stop(3) [OF that] by simp
    show "(fr, st, fr') \<in> set (STLSQ_rounds E (length x) (length x) x y (nat mi) (STLSQ_frame0 s0))"
      using mem by (simp add: nsel)
  qed
  then have J: "stop_inv t a mi kw (length x) fr"
    and r: "STLSQ_round E (length x) (length x) x y fr = Inr (st, fr')" by simp_all
  note R = STLSQ_round_stop [OF J r nd]
  from J have hne: "history_attr (self fr) \<noteq> []" by (simp add: stop_inv_def)
  have "history_attr (self fr') \<noteq> []" using R(1) hne by auto
  then have "history_attr (self fr') = history_attr (self fr) @ [last (history_attr (self fr'))]"
    using R(1) by (metis append_butlast_last_id)
  moreover have "lstsq E x y = Inr (last (history_attr s0))" by (simp add: g s0)
  ultimately show ?thesis using R(2) hne by (simp add: STLSQ_frame0_def)
qed

theorem STLSQ_stopping_test_witness:
  "(after_rounds (3/2) 20 1 [[0, 2, 3]] [False, True, True], Converged,
    after_rounds (3/2) 20 2 [[0, 2, 3], [0, 2, 3]] [False, True, True])
     \<in> set (STLSQ_rounds ortho_externals 3 3 identity3 y123 (nat 20)
              (STLSQ_frame0 (entry_state (3/2) 20)))
   \<and> (np_count_true (ind (after_rounds (3/2) 20 2 [[0, 2, 3], [0, 2, 3]] [False, True, True]))
        = np_count_true (ind (after_rounds (3/2) 20 1 [[0, 2, 3]] [False, True, True]))
      \<or> same_pattern
           (last (history_attr (self (after_rounds (3/2) 20 2 [[0, 2, 3], [0, 2, 3]]
                                        [False, True, True]))))
           (last (history_attr (self (after_rounds (3/2) 20 1 [[0, 2, 3]] [False, True, True])))))"
proof -
  let ?f1 = "after_rounds (3/2) 20 1 [[0, 2, 3]] [False, True, True]"
  let ?f2 = "after_rounds (3/2) 20 2 [[0, 2, 3], [0, 2, 3]] [False, True, True]"
  have mem0: "(?f1, Converged, ?f2)
     \<in> set (STLSQ_rounds ortho_externals 3 3 identity3 y123 (nat 20)
              (STLSQ_frame0 (entry_state (3/2) 20)))"
    by (simp only: drop_rounds) simp
  have mem: "(?f1, Converged, ?f2)
     \<in> set (STLSQ_rounds ortho_externals (length identity3)
              (np_count_true (ind_attr (entry_state (3/2) 20))) identity3 y123 (nat 20)
              (STLSQ_frame0 (entry_state (3/2) 20)))"
    using mem0 by (simp only: example_nf example_nsel)
  have nd: "Converged \<noteq> Degenerate" by simp
  from STLSQ_stopping_test [OF example_init example_hyper mem nd] mem0
  show ?thesis by simp
qed

text \<open>
  C2 as stated fails in the first round. With the identity as design matrix, the target
  \<open>[1, 2, 3]\<close> and threshold 10, the first round leaves an all-zero snapshot, which has
  the pattern of an all-zero baseline; the loop goes on all the same, because the entry
  before it is the initial guess \<open>[1, 2, 3]\<close>.
\<close>

theorem first_round_compares_with_initial_guess:
  "fit_init ortho_externals (stlsq_model 10 20) identity3 y123 = Inr (entry_state 10 20)
   \<and> history_attr (self (STLSQ_frame0 (entry_state 10 20))) = [[1, 2, 3]]
   \<and> STLSQ_round ortho_externals 3 3 identity3 y123 (STLSQ_frame0 (entry_state 10 20)) =
       Inr (Iterating, after_rounds 10 20 1 [[0, 0, 0]] [False, False, False])
   \<and> last (history_attr (self (after_rounds 10 20 1 [[0, 0, 0]] [False, False, False])))
       = [0, 0, 0]
   \<and> same_pattern [0, 0, 0] (replicate 3 0)
   \<and> \<not> same_pattern [0, 0, 0] [1, 2, 3]"
  using example_init [of 10 20] big_round1 [of 20]
  by (simp add: STLSQ_frame0_def entry_state_def after_rounds_def same_pattern_def
      eval_nat_numeral)

subsection \<open>The complexity metric\<close>

text \<open>
  C3, as amended. On a fitted model with coefficient vector \<open>[0, 2.0, 0, -0.05]\<close> and
  threshold \<open>0.1\<close> the complexity is 2, the number of nonzero coefficients whatever
  their magnitude, plus 1 if the absolute intercept is at least the threshold and plus
  0 otherwise. The threshold enters the intercept term only.
\<close>

theorem complexity_counts_nonzero_entries:
  assumes "threshold_of (hyper m) = Inr (1/10)"
    and "coef_attr m = [0, 2, 0, - (5/100)]"
    and "intercept_attr m = Some b"
  shows "complexity m = Inr (2 + (if 1/10 \<le> \<bar>b\<bar> then 1 else 0))"
  using assms by (simp add: complexity_def np_count_nonzero_def np_count_true_def)

theorem complexity_counts_nonzero_entries_witness:
  "threshold_of (hyper small_coef_model) = Inr (1/10)
   \<and> coef_attr small_coef_model = [0, 2, 0, - (5/100)]
   \<and> intercept_attr small_coef_model = Some 0
   \<and> complexity small_coef_model = Inr 2"
  using complexity_counts_nonzero_entries [of small_coef_model 0]
  by (simp add: small_coef_model_def BaseOptimizer_init_def)

text \<open>
  C3 as stated fails: with a zero intercept the claimed value is 1, and the code
  returns 2.
\<close>

theorem complexity_not_one_plus_intercept:
  "complexity small_coef_model \<noteq> Inr (1 + (if 1/10 \<le> \<bar>0::real\<bar> then 1 else 0))"
  by (simp add: small_coef_model_def BaseOptimizer_init_def complexity_def
      np_count_nonzero_def np_count_true_def)

subsection \<open>What \<^verbatim>\<open>fit\<close> resets\<close>

text \<open>
  C4, as amended. At the start of every fit the iteration counter is set to 0, the
  support mask to all features active and the coefficient vector to the unconstrained
  least-squares guess, and that guess is appended to History. History is not cleared:
  it holds only snapshots of the current fit exactly when it was empty before, as it is
  on a new instance.
\<close>

theorem fit_init_resets_all_but_history:
  assumes "fit_init E slf x y = Inr s0"
  shows "iters s0 = 0
         \<and> ind_attr s0 = replicate (length x) True
         \<and> lstsq E x y = Inr (coef_attr s0)
         \<and> history_attr s0 = history_attr slf @ [coef_attr s0]
         \<and> (history_attr s0 = [coef_attr s0] \<longleftrightarrow> history_attr slf = [])"
  using assms by (rule fit_init_Inr) auto

theorem fit_init_resets_all_but_history_witness:
  "fit_init ortho_externals (stlsq_model (3/2) 20) identity3 y123 = Inr (entry_state (3/2) 20)
   \<and> iters (entry_state (3/2) 20) = 0
   \<and> ind_attr (entry_state (3/2) 20) = [True, True, True]
   \<and> coef_attr (entry_state (3/2) 20) = [1, 2, 3]
   \<and> history_attr (stlsq_model (3/2) 20) = []
   \<and> history_attr (entry_state (3/2) 20) = [[1, 2, 3]]"
proof -
  from fit_init_resets_all_but_history [OF example_init [of "3/2" 20]]
  have "iters (entry_state (3/2) 20) = 0
   \<and> ind_attr (entry_state (3/2) 20) = [True, True, True]
   \<and> coef_attr (entry_state (3/2) 20) = [1, 2, 3]
   \<and> history_attr (stlsq_model (3/2) 20) = []
   \<and> history_attr (entry_state (3/2) 20) = [[1, 2, 3]]"
    by (simp add: entry_state_def stlsq_model_def BaseOptimizer_init_def)
  with example_init [of "3/2" 20] show ?thesis by blast
qed

text \<open>
  C4 as stated fails on a second fit of the same instance: the three snapshots of the
  first fit are still in History when the second fit enters \<^verbatim>\<open>_reduce\<close>.
\<close>

theorem history_survives_refit:
  "fit ortho_externals (stlsq_model (3/2) 20) identity3 y123 None = Inr (fitted_once, [])
   \<and> history_attr fitted_once = [[1, 2, 3], [0, 2, 3], [0, 2, 3]]
   \<and> fit_init ortho_externals fitted_once identity3 y123 =
       Inr (fitted_once\<lparr>iters := 0, ind_attr := [True, True, True], coef_attr := [1, 2, 3],
                        history_attr := [[1, 2, 3], [0, 2, 3], [0, 2, 3], [1, 2, 3]]\<rparr>)"
  using drop_fit
  by (simp add: fitted_once_def fit_init_def ortho_externals_def transpose_dot_def dot_def
      identity3_def y123_def)

subsection \<open>The two coefficient vectors of \<open>SR3\<close>\<close>

text \<open>
  C5. For an \<open>SR3\<close> instance as its constructor built it, whenever \<^verbatim>\<open>_reduce\<close> returns,
  with or without the non-convergence warning, the coefficient vector it wrote is the
  proximal operator that the factory gave for the thresholder, applied to the relaxed
  vector it wrote and the threshold.
\<close>

theorem SR3_reports_prox_of_full:
  assumes built: "SR3_init E t nu tol nm mi nrm fi cx = Inr m"
    and same: "hyper s0 = hyper m"
    and red: "SR3_reduce E s0 x y = Inr (s1, ws)"
  shows "\<exists>p w. get_prox E nm = Inr p \<and> coef_full_attr s1 = Some w \<and> coef_attr s1 = p w t"
proof -
  from built obtain p where p: "get_prox E nm = Inr p" and h: "hyper m = SR3 t nu tol nm p mi"
    by (rule SR3_init_Inr)
  from SR3_reduce_prox [OF h [folded same] red] p show ?thesis by blast
qed

theorem SR3_reports_prox_of_full_witness:
  "SR3_init ortho_externals (3/2) 1 (1/100000) ''l0'' 30 False False True = Inr sr3_model
   \<and> fit_init ortho_externals sr3_model identity3 y123 = Inr sr3_entry
   \<and> hyper sr3_entry = hyper sr3_model
   \<and> SR3_reduce ortho_externals sr3_entry identity3 y123 =
       Inr (sr3_entry\<lparr>iters := 2, history_attr := [[1, 2, 3], [0, 2, 3], [0, 2, 3]],
                      coef_attr := [0, 2, 3], coef_full_attr := Some [1/2, 2, 3]\<rparr>, [])
   \<and> [0, 2, 3] = prox_l0 [1/2, 2, 3] (3/2)"
proof -
  have same: "hyper sr3_entry = hyper sr3_model" by (simp add: sr3_entry_def)
  from SR3_reports_prox_of_full [OF sr3_example_built same sr3_example_reduce]
  obtain p w where "get_prox ortho_externals ''l0'' = Inr p" and "Some [1/2, 2, 3] = Some w"
    and "[0, 2, 3] = p w (3/2)" by auto
  moreover have "get_prox ortho_externals ''l0'' = Inr prox_l0"
    by (simp add: ortho_externals_def spec_get_prox_def)
  ultimately have "[0, 2, 3] = prox_l0 [1/2, 2, 3] (3/2)" by simp
  with sr3_example_built sr3_example_init same sr3_example_reduce show ?thesis by simp
qed

subsection \<open>The empty support\<close>

text \<open>
  C6. In a fit of \<open>STLSQ\<close>, a round that starts with an empty support mask leaves the
  loop at once: the fit emits the degenerate-support warning, writes the all-zero
  coefficient vector of length \<^verbatim>\<open>n_features\<close> and the all-false mask, and leaves the
  iteration counter and History as that round found them, so no regression is run. In
  particular, with the identity as design matrix, the target \<open>[1, 2, 3]\<close> and threshold
  10, for every penalty \<open>alpha \<ge> 0\<close> and every \<^verbatim>\<open>max_iter\<close> of at least 2, the defaults
  \<open>alpha = 0\<close> and \<^verbatim>\<open>max_iter = 20\<close> among them, and with solvers that solve the normal
  equations there, the second round starts with the empty support: the fit writes
  \<open>[0, 0, 0]\<close> and the all-false mask after one regression and emits that warning alone.
\<close>

theorem STLSQ_degenerate_support:
  assumes init: "fit_init E slf x y = Inr s0" and h: "hyper slf = STLSQ t a mi kw"
  shows "(\<forall>fr st fr'.
            (fr, st, fr') \<in> set (STLSQ_rounds E (length x) (np_count_true (ind_attr s0)) x y
                                   (nat mi) (STLSQ_frame0 s0))
            \<and> np_count_true (ind fr) = 0
            \<longrightarrow> st = Degenerate
                \<and> STLSQ_reduce E s0 x y =
                    Inr ((self fr)\<lparr>coef_attr := replicate (length x) 0,
                                   ind_attr := replicate (length x) False\<rparr>,
                         warned fr @ [SparsityTooBig t]))
         \<and> (x = identity3 \<and> y = y123 \<and> t = 10 \<and> 0 \<le> a \<and> 2 \<le> mi
            \<and> normal_equations identity3 y123 0 (coef_attr s0)
            \<and> (\<exists>w. ridge_regression E identity3 y123 a (case kw of None \<Rightarrow> [] | Some k \<Rightarrow> k)
                       = Inr w
                     \<and> normal_equations identity3 y123 a w)
            \<longrightarrow> STLSQ_reduce E s0 x y =
                  Inr (s0\<lparr>iters := 1, history_attr := history_attr s0 @ [[0, 0, 0]],
                          coef_attr := [0, 0, 0], ind_attr := [False, False, False]\<rparr>,
                       [SparsityTooBig 10]))"
proof (intro conjI allI impI)
  from init obtain g where g: "lstsq E x y = Inr g"
    and s0: "s0 = slf\<lparr>iters := 0, ind_attr := replicate (length x) True,
      coef_attr := g, history_attr := history_attr slf @ [g]\<rparr>"
    by (rule fit_init_Inr)
  have h0: "hyper s0 = STLSQ t a mi kw" by (simp add: s0 h)
  have len0: "length (ind_attr s0) = length x" by (simp add: s0)
  {
    fix fr st fr'
    assume A: "(fr, st, fr') \<in> set (STLSQ_rounds E (length x) (np_count_true (ind_attr s0)) x y
                                   (nat mi) (STLSQ_frame0 s0))
            \<and> np_count_true (ind fr) = 0"
    note D = STLSQ_empty_support [OF h0 len0 conjunct1 [OF A] conjunct2 [OF A]]
    show "st = Degenerate" by (rule D(1))
    show "STLSQ_reduce E s0 x y =
            Inr ((self fr)\<lparr>coef_attr := replicate (length x) 0,
                           ind_attr := replicate (length x) False\<rparr>,
                 warned fr @ [SparsityTooBig t])"
      by (simp add: STLSQ_reduce_def h0 D(3) D(2))
  }
  assume B: "x = identity3 \<and> y = y123 \<and> t = 10 \<and> 0 \<le> a \<and> 2 \<le> mi
            \<and> normal_equations identity3 y123 0 (coef_attr s0)
            \<and> (\<exists>w. ridge_regression E identity3 y123 a (case kw of None \<Rightarrow> [] | Some k \<Rightarrow> k)
                       = Inr w
                     \<and> normal_equations identity3 y123 a w)"
  then obtain w where x: "x = identity3" and y: "y = y123" and t: "t = 10" and a: "0 \<le> a"
    and mi: "2 \<le> mi" and ng: "normal_equations identity3 y123 0 (coef_attr s0)"
    and w: "ridge_regression E identity3 y123 a (case kw of None \<Rightarrow> [] | Some k \<Rightarrow> k) = Inr w"
    and nw: "normal_equations identity3 y123 a w"
    by blast
  have gv: "g = [1, 2, 3]"
    using normal_equations_identity3 [OF ng] by (simp add: s0)
  have wv: "w = [1 / (1 + a), 2 / (1 + a), 3 / (1 + a)]"
    by (rule normal_equations_identity3 [OF nw a])
  have small: "\<not> 10 \<le> \<bar>1 / (1 + a)\<bar>" "\<not> 10 \<le> \<bar>2 / (1 + a)\<bar>" "\<not> 10 \<le> \<bar>3 / (1 + a)\<bar>"
    using small_quotient [OF a, of 1] small_quotient [OF a, of 2] small_quotient [OF a, of 3]
    by simp_all
  have lx: "length x = 3" by (simp add: x identity3_def)
  let ?f1 = "\<lparr>self = s0\<lparr>iters := 1, history_attr := history_attr s0 @ [[0, 0, 0]]\<rparr>,
              ind = [False, False, False], coef = Some [0, 0, 0], warned = []\<rparr>"
  have sel: "select_columns identity3 [True, True, True] = Inr identity3"
    using select_all_columns [of identity3] by (simp add: identity3_def eval_nat_numeral)
  have r1: "STLSQ_round E 3 3 identity3 y123 (STLSQ_frame0 s0) = Inr (Iterating, ?f1)"
    using small
    by (simp add: STLSQ_round_def STLSQ_frame0_def h0 t s0 lx sel STLSQ_regress_def h w wv
        sparse_coefficients_def mask_assign_def no_change_def same_pattern_def gv
        np_count_true_def Let_def eval_nat_numeral)
  have r2: "STLSQ_round E 3 3 identity3 y123 ?f1 =
      Inr (Degenerate, ?f1\<lparr>warned := [SparsityTooBig 10], coef := Some [0, 0, 0]\<rparr>)"
    using STLSQ_round_degenerate [of ?f1 10 a mi kw E 3 3 identity3 y123]
    by (simp add: h0 [unfolded t] np_count_true_def eval_nat_numeral)
  from mi have "2 \<le> nat mi" by linarith
  then obtain k0 where "nat mi = 2 + k0" using le_Suc_ex by blast
  then have k: "nat mi = Suc (Suc k0)" by simp
  have loop: "STLSQ_for E 3 3 identity3 y123 (nat mi) (STLSQ_frame0 s0) =
      Inr (?f1\<lparr>warned := [SparsityTooBig 10], coef := Some [0, 0, 0]\<rparr>)"
    by (simp only: k STLSQ_for.simps r1 r2 sum.case prod.case step.case)
  have nsel: "np_count_true (ind_attr s0) = 3" by (simp add: s0 lx)
  have "STLSQ_reduce E s0 identity3 y123 =
          Inr (s0\<lparr>iters := 1, history_attr := history_attr s0 @ [[0, 0, 0]],
                  coef_attr := [0, 0, 0], ind_attr := [False, False, False]\<rparr>,
               [SparsityTooBig 10])"
    by (simp add: STLSQ_reduce_def h0 lx [unfolded x] nsel loop)
  then show "STLSQ_reduce E s0 x y =
          Inr (s0\<lparr>iters := 1, history_attr := history_attr s0 @ [[0, 0, 0]],
                  coef_attr := [0, 0, 0], ind_attr := [False, False, False]\<rparr>,
               [SparsityTooBig 10])"
    by (simp add: x y)
qed

theorem STLSQ_degenerate_support_witness:
  "fit_init ortho_externals (stlsq_model 10 20) identity3 y123 = Inr (entry_state 10 20)
   \<and> (after_rounds 10 20 1 [[0, 0, 0]] [False, False, False], Degenerate,
      (after_rounds 10 20 1 [[0, 0, 0]] [False, False, False])
         \<lparr>warned := [SparsityTooBig 10], coef := Some [0, 0, 0]\<rparr>)
       \<in> set (STLSQ_rounds ortho_externals 3 3 identity3 y123 (nat 20)
                (STLSQ_frame0 (entry_state 10 20)))
   \<and> np_count_true (ind (after_rounds 10 20 1 [[0, 0, 0]] [False, False, False])) = 0
   \<and> normal_equations identity3 y123 0 [1, 2, 3]
   \<and> ridge_regression ortho_externals identity3 y123 0 [] = Inr [1, 2, 3]
   \<and> STLSQ_reduce ortho_externals (entry_state 10 20) identity3 y123 =
       Inr ((entry_state 10 20)\<lparr>iters := 1, history_attr := [[1, 2, 3], [0, 0, 0]],
               coef_attr := [0, 0, 0], ind_attr := [False, False, False]\<rparr>,
            [SparsityTooBig 10])"
proof -
  let ?f1 = "after_rounds 10 20 1 [[0, 0, 0]] [False, False, False]"
  have mem0: "(?f1, Degenerate, ?f1\<lparr>warned := [SparsityTooBig 10], coef := Some [0, 0, 0]\<rparr>)
       \<in> set (STLSQ_rounds ortho_externals 3 3 identity3 y123 (nat 20)
                (STLSQ_frame0 (entry_state 10 20)))"
    by (simp only: big_rounds) simp
  have mem: "(?f1, Degenerate, ?f1\<lparr>warned := [SparsityTooBig 10], coef := Some [0, 0, 0]\<rparr>)
       \<in> set (STLSQ_rounds ortho_externals (length identity3)
                (np_count_true (ind_attr (entry_state 10 20))) identity3 y123 (nat 20)
                (STLSQ_frame0 (entry_state 10 20)))"
    using mem0 by (simp only: example_nf example_nsel)
  have empty: "np_count_true (ind ?f1) = 0"
    by (simp add: after_rounds_def np_count_true_def)
  have ne: "normal_equations identity3 y123 0 [1, 2, 3]"
    by (simp add: normal_equations_def identity3_def y123_def dot_def eval_nat_numeral)
  have ne': "normal_equations identity3 y123 0 (coef_attr (entry_state 10 20))"
    using ne by (simp add: entry_state_def)
  have rr: "ridge_regression ortho_externals identity3 y123 0 (case None of None \<Rightarrow> [] | Some k \<Rightarrow> k)
              = Inr [1, 2, 3]"
    by (simp add: ortho_externals_def transpose_dot_def dot_def identity3_def y123_def)
  note T = STLSQ_degenerate_support [OF example_init example_hyper, of 10 20]
  from T mem empty have general:
    "STLSQ_reduce ortho_externals (entry_state 10 20) identity3 y123 =
       Inr ((self ?f1)\<lparr>coef_attr := replicate (length identity3) 0,
                       ind_attr := replicate (length identity3) False\<rparr>,
            warned ?f1 @ [SparsityTooBig 10])"
    by blast
  from T ne' rr ne have particular:
    "STLSQ_reduce ortho_externals (entry_state 10 20) identity3 y123 =
       Inr ((entry_state 10 20)\<lparr>iters := 1,
               history_attr := history_attr (entry_state 10 20) @ [[0, 0, 0]],
               coef_attr := [0, 0, 0], ind_attr := [False, False, False]\<rparr>,
            [SparsityTooBig 10])"
    by (auto simp: ne)
  from particular have "STLSQ_reduce ortho_externals (entry_state 10 20) identity3 y123 =
       Inr ((entry_state 10 20)\<lparr>iters := 1, history_attr := [[1, 2, 3], [0, 0, 0]],
               coef_attr := [0, 0, 0], ind_attr := [False, False, False]\<rparr>,
            [SparsityTooBig 10])"
    by (simp add: entry_state_def)
  with example_init [of 10 20] mem0 empty ne rr show ?thesis by simp
qed

subsection \<open>Threshold zero\<close>

text \<open>
  C7. In a fit of \<open>STLSQ\<close> with threshold 0, at least one feature and \<^verbatim>\<open>max_iter\<close>
  positive, if the ridge solver, called with the penalty \<open>alpha\<close> on all the columns,
  returns one coefficient per column, then \<^verbatim>\<open>_reduce\<close> returns after that one
  regression, without a warning, with exactly that vector as coefficients and the mask
  still all true. The solver is called with \<open>alpha\<close> whatever its value, so the vector is
  the least-squares solution for \<open>alpha = 0\<close> and the ridge solution for \<open>alpha > 0\<close>.
\<close>

theorem STLSQ_zero_threshold:
  assumes init: "fit_init E slf x y = Inr s0"
    and h: "hyper slf = STLSQ 0 a mi kw"
    and mi: "0 < mi" and x: "x \<noteq> []"
    and w: "ridge_regression E x y a (case kw of None \<Rightarrow> [] | Some k \<Rightarrow> k) = Inr w"
    and lw: "length w = length x"
  shows "STLSQ_reduce E s0 x y =
           Inr (s0\<lparr>iters := 1, history_attr := history_attr s0 @ [w], coef_attr := w,
                   ind_attr := replicate (length x) True\<rparr>, [])"
proof -
  from init obtain g where s0: "s0 = slf\<lparr>iters := 0, ind_attr := replicate (length x) True,
      coef_attr := g, history_attr := history_attr slf @ [g]\<rparr>"
    by (rule fit_init_Inr)
  have h0: "hyper s0 = STLSQ 0 a mi kw" by (simp add: s0 h)
  from x have pos: "length x \<noteq> 0" by simp
  let ?f1 = "\<lparr>self = s0\<lparr>iters := iters s0 + 1, history_attr := history_attr s0 @ [w]\<rparr>,
              ind = replicate (length x) True, coef = Some w, warned = []\<rparr>"
  have r1: "STLSQ_round E (length x) (length x) x y (STLSQ_frame0 s0) = Inr (Converged, ?f1)"
    using pos
    by (simp add: STLSQ_round_def STLSQ_frame0_def h0 s0 select_all_columns STLSQ_regress_def h w
        sparse_coefficients_zero_threshold [OF lw])
  from mi obtain k where k: "nat mi = Suc k"
    by (metis Suc_pred' zero_less_nat_eq)
  have loop: "STLSQ_for E (length x) (length x) x y (nat mi) (STLSQ_frame0 s0) = Inr ?f1"
    by (simp only: k STLSQ_for.simps r1 sum.case prod.case step.case)
  have nsel: "np_count_true (ind_attr s0) = length x" by (simp add: s0)
  show ?thesis
    by (simp add: STLSQ_reduce_def h0 nsel loop) (simp add: s0)
qed

theorem STLSQ_zero_threshold_witness:
  "fit_init ortho_externals (stlsq_model 0 20) identity3 y123 = Inr (entry_state 0 20)
   \<and> ridge_regression ortho_externals identity3 y123 0 [] = Inr [1, 2, 3]
   \<and> STLSQ_reduce ortho_externals (entry_state 0 20) identity3 y123 =
       Inr ((entry_state 0 20)\<lparr>iters := 1, history_attr := [[1, 2, 3], [1, 2, 3]],
               coef_attr := [1, 2, 3], ind_attr := [True, True, True]\<rparr>, [])"
proof -
  have rr: "ridge_regression ortho_externals identity3 y123 0 (case None of None \<Rightarrow> [] | Some k \<Rightarrow> k)
              = Inr [1, 2, 3]"
    by (simp add: ortho_externals_def transpose_dot_def dot_def identity3_def y123_def)
  have pos: "(0::int) < 20" by simp
  have ne: "identity3 \<noteq> []" by (simp add: identity3_def)
  have len: "length [1, 2, 3 :: real] = length identity3" by (simp add: identity3_def)
  from STLSQ_zero_threshold [OF example_init example_hyper pos ne rr len]
  have "STLSQ_reduce ortho_externals (entry_state 0 20) identity3 y123 =
       Inr ((entry_state 0 20)\<lparr>iters := 1, history_attr := [[1, 2, 3], [1, 2, 3]],
               coef_attr := [1, 2, 3], ind_attr := [True, True, True]\<rparr>, [])"
    by (simp add: entry_state_def identity3_def eval_nat_numeral)
  with example_init [of 0 20] rr show ?thesis by simp
qed

subsection \<open>Validation at construction\<close>

text \<open>
  C8, as amended. Construction of an \<open>STLSQ\<close> raises exactly when \<open>threshold < 0\<close>,
  \<open>alpha < 0\<close> or \<open>max_iter \<le> 0\<close>. Construction of an \<open>SR3\<close> raises exactly when
  \<open>threshold < 0\<close>, \<open>nu \<le> 0\<close>, \<open>tol \<le> 0\<close> or \<open>max_iter \<le> 0\<close>, or when the
  proximal-operator factory rejects the thresholder. A construction that raises
  returns no instance, so no fit can follow it.
\<close>

theorem construction_validation:
  "(isl (STLSQ_init threshold alpha max_iter ridge_kw nrm fi cx)
      \<longleftrightarrow> threshold < 0 \<or> alpha < 0 \<or> max_iter \<le> 0)
   \<and> (isl (SR3_init E threshold' nu tol thresholder max_iter' nrm' fi' cx')
      \<longleftrightarrow> threshold' < 0 \<or> nu \<le> 0 \<or> tol \<le> 0 \<or> max_iter' \<le> 0
          \<or> isl (get_prox E thresholder))"
  by (auto simp: STLSQ_init_def SR3_init_def split: sum.splits)

theorem construction_validation_witness:
  "isl (STLSQ_init (-1) 0 20 None False False True)
   \<and> \<not> isl (STLSQ_init (1/10) 0 20 None False False True)
   \<and> isl (SR3_init ortho_externals (1/10) 0 (1/100000) ''l0'' 30 False False True)
   \<and> \<not> isl (SR3_init ortho_externals (1/10) 1 (1/100000) ''l0'' 30 False False True)"
proof -
  have p: "\<not> isl (get_prox ortho_externals ''l0'')"
    by (simp add: ortho_externals_def spec_get_prox_def)
  show ?thesis
    using p
      construction_validation [where threshold = "-1" and alpha = 0 and max_iter = 20
        and ridge_kw = None and nrm = False and fi = False and cx = True
        and E = ortho_externals and threshold' = "1/10" and nu = 0 and tol = "1/100000"
        and thresholder = "''l0''" and max_iter' = 30 and nrm' = False and fi' = False
        and cx' = True]
      construction_validation [where threshold = "1/10" and alpha = 0 and max_iter = 20
        and ridge_kw = None and nrm = False and fi = False and cx = True
        and E = ortho_externals and threshold' = "1/10" and nu = 1 and tol = "1/100000"
        and thresholder = "''l0''" and max_iter' = 30 and nrm' = False and fi' = False
        and cx' = True]
    by simp
qed

text \<open>
  C8 as stated fails for \<open>SR3\<close>: with every bound respected, the construction still
  raises when the thresholder is not one the factory knows.
\<close>

theorem SR3_init_rejects_unknown_thresholder:
  "(0::real) \<le> 1/10 \<and> (0::real) < 1 \<and> (0::real) < 1/100000 \<and> (0::int) < 30
   \<and> SR3_init ortho_externals (1/10) 1 (1/100000) ''l7'' 30 False False True
       = Inl (NotImplementedError ''l7'')"
  by (simp add: SR3_init_def ortho_externals_def spec_get_prox_def)

subsection \<open>Coefficients off the support\<close>

text \<open>
  C9. Whenever \<^verbatim>\<open>_reduce\<close> of \<open>STLSQ\<close> returns in a fit, the coefficient vector it wrote
  is zero at every index where the mask it wrote is false.
\<close>

theorem STLSQ_coefficients_zero_off_support:
  assumes init: "fit_init E slf x y = Inr s0"
    and red: "STLSQ_reduce E s0 x y = Inr (s1, ws)"
  shows "\<forall>i < length (ind_attr s1).
           \<not> ind_attr s1 ! i \<longrightarrow> i < length (coef_attr s1) \<and> coef_attr s1 ! i = 0"
proof -
  from init obtain g where s0: "s0 = slf\<lparr>iters := 0, ind_attr := replicate (length x) True,
      coef_attr := g, history_attr := history_attr slf @ [g]\<rparr>"
    by (rule fit_init_Inr)
  from red obtain mi fr' c where
    f: "STLSQ_for E (length x) (np_count_true (ind_attr s0)) x y (nat mi) (STLSQ_frame0 s0) = Inr fr'"
    and c: "coef fr' = Some c"
    and s1: "s1 = (self fr')\<lparr>coef_attr := c, ind_attr := ind fr'\<rparr>"
    by (auto simp: STLSQ_reduce_def split: hyper.splits sum.splits option.splits)
  have "case coef (STLSQ_frame0 s0) of
          None \<Rightarrow> ind (STLSQ_frame0 s0) = replicate (length (ind (STLSQ_frame0 s0))) True
        | Some c \<Rightarrow> zero_off_mask c (ind (STLSQ_frame0 s0))"
    by (simp add: STLSQ_frame0_def s0)
  from STLSQ_for_zero_off_mask [OF f this] c have "zero_off_mask c (ind fr')" by simp
  then show ?thesis by (simp add: s1 zero_off_mask_def)
qed

theorem STLSQ_coefficients_zero_off_support_witness:
  "fit_init ortho_externals (stlsq_model (3/2) 20) identity3 y123 = Inr (entry_state (3/2) 20)
   \<and> STLSQ_reduce ortho_externals (entry_state (3/2) 20) identity3 y123 =
       Inr ((entry_state (3/2) 20)\<lparr>iters := 2,
               history_attr := [[1, 2, 3], [0, 2, 3], [0, 2, 3]],
               coef_attr := [0, 2, 3], ind_attr := [False, True, True]\<rparr>, [])
   \<and> \<not> [False, True, True] ! 0
   \<and> [0, 2, 3 :: real] ! 0 = 0"
proof -
  from STLSQ_coefficients_zero_off_support [OF example_init drop_reduce]
  have "[0, 2, 3 :: real] ! 0 = 0" by simp
  with example_init [of "3/2" 20] drop_reduce show ?thesis by simp
qed

subsection \<open>The wrappers leave the support alone\<close>

text \<open>
  C10. In a fit of \<open>LASSO\<close> or \<open>ElasticNet\<close> that returns, the support mask of the
  result is the all-true mask set at the start of the fit: \<^verbatim>\<open>_reduce\<close> returns the
  state it was given with only the coefficient vector and the iteration count replaced,
  and emits no warning.
\<close>

theorem wrappers_keep_full_support:
  assumes wrapper: "hyper slf = LASSO lasso_kw a mi \<or> hyper slf = ElasticNet a l1 mi en_kw"
    and pre: "fit_preprocess E slf x_in y_in sw = Inr (x, y, X_offset, y_offset, X_scale)"
    and fit: "fit E slf x_in y_in sw = Inr (s2, ws)"
  shows "ind_attr s2 = replicate (length x) True
         \<and> (\<exists>s0 c n. fit_init E slf x y = Inr s0
                     \<and> ind_attr s0 = replicate (length x) True
                     \<and> reduce E s0 x y = Inr (s0\<lparr>coef_attr := c, iters := n\<rparr>, []))"
proof -
  from fit pre obtain s0 s1 c b where
    init: "fit_init E slf x y = Inr s0"
    and red: "reduce E s0 x y = Inr (s1, ws)"
    and s2: "s2 = s1\<lparr>coef_attr := c, intercept_attr := Some b\<rparr>"
    by (auto simp: fit_def split: sum.splits)
  from init obtain g where s0: "s0 = slf\<lparr>iters := 0, ind_attr := replicate (length x) True,
      coef_attr := g, history_attr := history_attr slf @ [g]\<rparr>"
    by (rule fit_init_Inr)
  have h0: "hyper s0 = hyper slf" by (simp add: s0)
  from wrapper red h0 obtain c1 n where s1: "s1 = s0\<lparr>coef_attr := c1, iters := n\<rparr>" and ws: "ws = []"
    by (auto simp: reduce_def LASSO_reduce_def ElasticNet_reduce_def split: sum.splits)
  have "ind_attr s2 = replicate (length x) True" by (simp add: s2 s1 s0)
  moreover have "ind_attr s0 = replicate (length x) True" by (simp add: s0)
  ultimately show ?thesis using init red s1 ws by blast
qed

theorem wrappers_keep_full_support_witness:
  "hyper lasso_model = LASSO None (1/3) 1000
   \<and> fit_preprocess ortho_externals lasso_model identity3 y123 None =
       Inr (identity3, y123, [0, 0, 0], 0, [1, 1, 1])
   \<and> fit ortho_externals lasso_model identity3 y123 None =
       Inr (lasso_model\<lparr>iters := 1, ind_attr := [True, True, True], coef_attr := [0, 1, 2],
                        history_attr := [[1, 2, 3]], intercept_attr := Some 0\<rparr>, [])
   \<and> ind_attr (lasso_model\<lparr>iters := 1, ind_attr := [True, True, True], coef_attr := [0, 1, 2],
                        history_attr := [[1, 2, 3]], intercept_attr := Some 0\<rparr>)
       = replicate (length identity3) True"
proof -
  have h: "hyper lasso_model = LASSO None (1/3) 1000"
    by (simp add: lasso_model_def BaseOptimizer_init_def)
  have w: "hyper lasso_model = LASSO None (1/3) 1000
           \<or> hyper lasso_model = ElasticNet (1/3) 0 1000 []"
    using h by simp
  from wrappers_keep_full_support [OF w example_preprocess lasso_example_fit]
  have "ind_attr (lasso_model\<lparr>iters := 1, ind_attr := [True, True, True],
                   coef_attr := [0, 1, 2], history_attr := [[1, 2, 3]],
                   intercept_attr := Some 0\<rparr>) = replicate (length identity3) True"
    by simp
  with h example_preprocess lasso_example_fit show ?thesis by simp
qed

end
